theory Spec2Isabelle
  imports Main
begin

section \<open>Strings, as Python's \<open>str\<close> operations use them\<close>

text \<open>
  A Python \<open>str\<close> is modelled by the list of its UTF-8 bytes. Every option string of
  \<open>assistant.py\<close> is ASCII; only printed messages carry pictographs, which are the named
  byte sequences below. Whitespace and digits are the ASCII ones: the further Unicode
  whitespace that \<open>str.strip\<close> removes and the non-ASCII digits that \<open>int\<close> accepts are
  not modelled, and the theorems about \<open>ask_question\<close> are stated over the result of
  \<open>py_int\<close>, not over the shape of the line.
\<close>

definition newline :: string where
  "newline = [CHR 0x0A]"

definition clipboard :: string where
  "clipboard = [CHR 0xF0, CHR 0x9F, CHR 0x93, CHR 0x8B]"

definition check_mark :: string where
  "check_mark = [CHR 0xE2, CHR 0x9C, CHR 0x85]"

definition cross_mark :: string where
  "cross_mark = [CHR 0xE2, CHR 0x9D, CHR 0x8C]"

definition pause_sign :: string where
  "pause_sign = [CHR 0xE2, CHR 0x8F, CHR 0xB8, CHR 0xEF, CHR 0xB8, CHR 0x8F]"

definition warning_sign :: string where
  "warning_sign = [CHR 0xE2, CHR 0x9A, CHR 0xA0, CHR 0xEF, CHR 0xB8, CHR 0x8F]"

definition floppy_disk :: string where
  "floppy_disk = [CHR 0xF0, CHR 0x9F, CHR 0x92, CHR 0xBE]"

definition party_popper :: string where
  "party_popper = [CHR 0xF0, CHR 0x9F, CHR 0x8E, CHR 0x89]"

definition waving_hand :: string where
  "waving_hand = [CHR 0xF0, CHR 0x9F, CHR 0x91, CHR 0x8B]"

definition direct_hit :: string where
  "direct_hit = [CHR 0xF0, CHR 0x9F, CHR 0x8E, CHR 0xAF]"

definition rocket :: string where
  "rocket = [CHR 0xF0, CHR 0x9F, CHR 0x9A, CHR 0x80]"

definition bullet :: string where
  "bullet = [CHR 0xE2, CHR 0x80, CHR 0xA2]"

text \<open>\<open>s.strip()\<close>: the ASCII characters for which \<open>str.isspace\<close> holds are
  \<open>0x09\<close> to \<open>0x0D\<close>, \<open>0x1C\<close> to \<open>0x1F\<close> and the blank.\<close>

definition is_space :: "char \<Rightarrow> bool" where
  "is_space c = (let n = (of_char c :: nat) in (9 \<le> n \<and> n \<le> 13) \<or> (28 \<le> n \<and> n \<le> 32))"

definition strip :: "string \<Rightarrow> string" where
  "strip s = rev (dropWhile is_space (rev (dropWhile is_space s)))"

text \<open>\<open>sub in s\<close> for two strings: \<open>sub\<close> occurs in \<open>s\<close> as a contiguous run. The
  same test on lists of any kind tells whether some lines were written one after the other.\<close>

fun starts_with :: "'a list \<Rightarrow> 'a list \<Rightarrow> bool" where
  "starts_with s [] = True"
| "starts_with [] (p # ps) = False"
| "starts_with (c # cs) (p # ps) = (c = p \<and> starts_with cs ps)"

fun contains :: "'a list \<Rightarrow> 'a list \<Rightarrow> bool" where
  "contains sub [] = (sub = [])"
| "contains sub (c # cs) = (starts_with (c # cs) sub \<or> contains sub cs)"

text \<open>\<open>str(n)\<close> for a natural number, in decimal.\<close>

definition digit_char :: "nat \<Rightarrow> char" where
  "digit_char d = char_of (48 + d)"

fun str_nat :: "nat \<Rightarrow> string" where
  "str_nat n = (if n < 10 then [digit_char n] else str_nat (n div 10) @ [digit_char (n mod 10)])"

definition str_int :: "int \<Rightarrow> string" where
  "str_int i = (if i < 0 then CHR ''-'' # str_nat (nat (- i)) else str_nat (nat i))"

text \<open>
  \<open>int(s)\<close> in base ten: surrounding whitespace, an optional sign, then decimal digits
  in which single underscores may separate digits. \<open>None\<close> is the \<open>ValueError\<close>.
\<close>

definition is_digit :: "char \<Rightarrow> bool" where
  "is_digit c = (let n = (of_char c :: nat) in 48 \<le> n \<and> n \<le> 57)"

definition digit_val :: "char \<Rightarrow> int" where
  "digit_val c = int (of_char c) - 48"

fun parse_digits :: "int \<Rightarrow> string \<Rightarrow> int option" where
  "parse_digits acc [] = Some acc"
| "parse_digits acc [c] = (if is_digit c then Some (acc * 10 + digit_val c) else None)"
| "parse_digits acc (c # d # ds) =
     (if is_digit c then parse_digits (acc * 10 + digit_val c) (d # ds)
      else if c = CHR ''_'' \<and> is_digit d then parse_digits (acc * 10 + digit_val d) ds
      else None)"

definition parse_unsigned :: "string \<Rightarrow> int option" where
  "parse_unsigned s =
     (case s of [] \<Rightarrow> None
      | c # cs \<Rightarrow> if is_digit c then parse_digits (digit_val c) cs else None)"

definition py_int :: "string \<Rightarrow> int option" where
  "py_int s =
     (case strip s of [] \<Rightarrow> None
      | c # cs \<Rightarrow>
          if c = CHR ''-'' then map_option uminus (parse_unsigned cs)
          else if c = CHR ''+'' then parse_unsigned cs
          else parse_unsigned (c # cs))"

section \<open>Terminal, exceptions and the session record\<close>

text \<open>
  One call of \<open>input()\<close> takes the next event of the terminal: a line (without its
  newline), or the operator's Ctrl-C, which raises \<open>KeyboardInterrupt\<close> in the call.
  When the events are used up standard input is at its end and \<open>input()\<close> raises
  \<open>EOFError\<close>.
\<close>

datatype event = Line string | Interrupt

datatype exn = KeyboardInterrupt | EOFError | AttributeError string | TypeError string

text \<open>\<open>except Exception\<close> catches every exception of the model but \<open>KeyboardInterrupt\<close>,
  which derives from \<open>BaseException\<close> only.\<close>

fun is_Exception :: "exn \<Rightarrow> bool" where
  "is_Exception KeyboardInterrupt = False"
| "is_Exception _ = True"

fun exn_str :: "exn \<Rightarrow> string" where
  "exn_str KeyboardInterrupt = []"
| "exn_str EOFError = ''EOF when reading a line''"
| "exn_str (AttributeError m) = m"
| "exn_str (TypeError m) = m"

text \<open>What reaches standard output: the argument of a \<open>print\<close> call (its newline left
  implicit) or the prompt of an \<open>input\<close> call.\<close>

datatype written = Print string | Prompt string

text \<open>The values stored in \<open>session_data\<close>: \<open>None\<close>, a string, an integer, or a dictionary
  from strings to strings.\<close>

datatype pyval = PNone | PStr string | PInt int | PDict "(string \<times> string) list"

text \<open>A dictionary keeps its keys in insertion order: assigning to a key that is present
  replaces the value in place, assigning to a new key appends it.\<close>

fun dict_set :: "'k \<Rightarrow> 'v \<Rightarrow> ('k \<times> 'v) list \<Rightarrow> ('k \<times> 'v) list" where
  "dict_set k v [] = [(k, v)]"
| "dict_set k v ((k', v') # d) = (if k' = k then (k, v) # d else (k', v') # dict_set k v d)"

definition dict_get :: "('k \<times> 'v) list \<Rightarrow> 'k \<Rightarrow> 'v \<Rightarrow> 'v" where
  "dict_get d k dflt = (case map_of d k of None \<Rightarrow> dflt | Some v \<Rightarrow> v)"

definition keys :: "('k \<times> 'v) list \<Rightarrow> 'k list" where
  "keys d = map fst d"

type_synonym session = "(string \<times> pyval) list"

text \<open>
  The state of a run: the assistant's \<open>session_data\<close>, the terminal, the contents of
  \<open>backend_assistant_session.json\<close> (\<open>None\<close> while this run has not written it; the
  file is represented by the object that \<open>json.dump\<close> serialises), and three facts of
  the environment that the run never changes: the message of the exception that opening
  or writing the file raises, if it does, and whether the operator presses Ctrl-C while
  the welcome banner or the implementation plan is being printed. The field
  \<open>conversation_history\<close> is initialised and never used; it is left out.
\<close>

record world =
  session_data :: session
  stdin :: "event list"
  stdout :: "written list"
  snapshot :: "session option"
  write_error :: "string option"
  sigint_welcome :: bool
  sigint_plan :: bool

type_synonym 'a prog = "world \<Rightarrow> (exn + 'a) \<times> world"

definition print :: "string \<Rightarrow> world \<Rightarrow> world" where
  "print s w = w\<lparr>stdout := stdout w @ [Print s]\<rparr>"

definition prints :: "string list \<Rightarrow> world \<Rightarrow> world" where
  "prints ss w = w\<lparr>stdout := stdout w @ map Print ss\<rparr>"

definition set_item :: "string \<Rightarrow> pyval \<Rightarrow> world \<Rightarrow> world" where
  "set_item k v w = w\<lparr>session_data := dict_set k v (session_data w)\<rparr>"

text \<open>Sequencing of two computations: an exception of the first ends both.\<close>

definition bind :: "'a prog \<Rightarrow> ('a \<Rightarrow> 'b prog) \<Rightarrow> 'b prog" where
  "bind m f w = (case m w of (Inl e, w') \<Rightarrow> (Inl e, w') | (Inr x, w') \<Rightarrow> f x w')"

definition init :: session where
  "init =
     [(''frontend_tech_stack'', PNone),
      (''backend_framework'', PNone),
      (''llm_requirements'', PNone),
      (''data_format'', PNone),
      (''api_design'', PNone),
      (''auth_requirements'', PNone),
      (''deployment_target'', PNone),
      (''communication_method'', PNone),
      (''current_step'', PInt 1)]"

section \<open>\<open>ask_question\<close>\<close>

text \<open>
  The \<open>while True\<close> loop of \<open>ask_question\<close>, on the events still to come. It returns
  what the loop wrote, the answer or the exception that \<open>input()\<close> raised, and the
  events left. Each round takes at least one event, so the loop ends: with an answer, with
  the operator's interrupt, or with \<open>EOFError\<close> when the events run out.
\<close>

definition choice_prompt :: string where
  "choice_prompt = newline @ ''Enter your choice (number): ''"

definition specify_prompt :: string where
  "specify_prompt = ''Please specify: ''"

definition answer_prompt :: string where
  "answer_prompt = newline @ ''Your answer: ''"

definition invalid_choice :: string where
  "invalid_choice = cross_mark @ '' Invalid choice. Please try again.''"

definition invalid_number :: string where
  "invalid_number = cross_mark @ '' Please enter a valid number.''"

definition no_answer :: string where
  "no_answer = cross_mark @ '' Please provide an answer.''"

definition after_out :: "written list \<Rightarrow> written list \<times> (exn + string) \<times> event list \<Rightarrow>
    written list \<times> (exn + string) \<times> event list" where
  "after_out out r = (case r of (out', res, ins) \<Rightarrow> (out @ out', res, ins))"

fun ask_loop :: "string list \<Rightarrow> bool \<Rightarrow> event list \<Rightarrow>
    written list \<times> (exn + string) \<times> event list" where
  "ask_loop options allow_custom [] =
     ([Prompt (if options \<noteq> [] then choice_prompt else answer_prompt)], Inl EOFError, [])"
| "ask_loop options allow_custom (Interrupt # ins) =
     ([Prompt (if options \<noteq> [] then choice_prompt else answer_prompt)],
      Inl KeyboardInterrupt, ins)"
| "ask_loop options allow_custom (Line l # ins) =
     (if options \<noteq> [] then
        (case py_int (strip l) of
           None \<Rightarrow>
             after_out [Prompt choice_prompt, Print invalid_number]
               (ask_loop options allow_custom ins)
         | Some choice \<Rightarrow>
             if 1 \<le> choice \<and> choice \<le> int (length options) then
               (let selected = options ! nat (choice - 1)
                in ([Prompt choice_prompt, Print (check_mark @ '' Selected: '' @ selected)],
                    Inr selected, ins))
             else if allow_custom \<and> choice = int (length options) + 1 then
               (case ins of
                  [] \<Rightarrow> ([Prompt choice_prompt, Prompt specify_prompt], Inl EOFError, [])
                | Interrupt # ins' \<Rightarrow>
                    ([Prompt choice_prompt, Prompt specify_prompt], Inl KeyboardInterrupt, ins')
                | Line c # ins' \<Rightarrow>
                    (let custom = strip c
                     in if custom \<noteq> [] then
                          ([Prompt choice_prompt, Prompt specify_prompt,
                            Print (check_mark @ '' Custom choice: '' @ custom)],
                           Inr custom, ins')
                        else
                          after_out [Prompt choice_prompt, Prompt specify_prompt]
                            (ask_loop options allow_custom ins')))
             else
               after_out [Prompt choice_prompt, Print invalid_choice]
                 (ask_loop options allow_custom ins))
      else
        (let response = strip l
         in if response \<noteq> [] then ([Prompt answer_prompt], Inr response, ins)
            else after_out [Prompt answer_prompt, Print no_answer]
                   (ask_loop options allow_custom ins)))"

text \<open>The lines printed before the loop: the question, the numbered options and, when a
  custom answer is allowed, the extra entry \<open>Other (specify)\<close>.\<close>

definition option_lines :: "string list \<Rightarrow> written list" where
  "option_lines options =
     map (\<lambda>(i, option). Print (''  '' @ str_nat i @ ''. '' @ option))
       (zip [1 ..< Suc (length options)] options)"

definition ask_header :: "string \<Rightarrow> string list \<Rightarrow> bool \<Rightarrow> written list" where
  "ask_header question options allow_custom =
     Print (newline @ clipboard @ '' '' @ question) #
     (if options \<noteq> [] then
        Print (newline @ ''Available options:'') # option_lines options @
        (if allow_custom
         then [Print (''  '' @ str_nat (length options + 1) @ ''. Other (specify)'')]
         else [])
      else [])"

definition ask_question :: "string \<Rightarrow> string list \<Rightarrow> bool \<Rightarrow> string prog" where
  "ask_question question options allow_custom w =
     (case ask_loop options allow_custom (stdin w) of
        (out, res, ins) \<Rightarrow>
          (res, w\<lparr>stdin := ins,
                  stdout := stdout w @ ask_header question options allow_custom @ out\<rparr>))"

section \<open>The eight steps\<close>

text \<open>
  A step prints fixed advice, asks its questions and stores the answers. The advice (the
  banners and the helper methods \<open>explain_framework_benefits\<close>, \<open>explain_rag_implementation\<close>,
  \<open>show_data_structure_example\<close>, \<open>show_api_examples\<close>, \<open>provide_security_recommendations\<close>
  and \<open>provide_deployment_guidance\<close>) only prints constant text chosen by the answer, raises
  nothing on any string and is read by nothing: it is left out of \<open>stdout\<close>. Everything
  that \<open>ask_question\<close>, the sequencer, \<open>save_session\<close> and the plan renderer print is kept.
\<close>

definition return :: "'a \<Rightarrow> 'a prog" where
  "return x w = (Inr x, w)"

definition say :: "string \<Rightarrow> unit prog" where
  "say s w = (Inr (), print s w)"

definition assign :: "string \<Rightarrow> pyval \<Rightarrow> unit prog" where
  "assign k v w = (Inr (), set_item k v w)"

definition frontend_options :: "string list" where
  "frontend_options =
     [''Very familiar - I built it'',
      ''Somewhat familiar - I've reviewed the code'',
      ''Not familiar - I'm new to this project'']"

definition step_1_frontend_analysis :: "bool prog" where
  "step_1_frontend_analysis =
     bind (ask_question ''How familiar are you with the current frontend data flow?''
             frontend_options True) (\<lambda>familiarity.
     bind (assign ''frontend_tech_stack''
             (PDict [(''framework'', ''React + Vite''), (''styling'', ''Tailwind CSS''),
                     (''familiarity'', familiarity)])) (\<lambda>_.
     return True))"

definition framework_options :: "string list" where
  "framework_options =
     [''FastAPI (Python) - High performance, automatic API docs'',
      ''Flask (Python) - Lightweight, flexible, great for MVPs'',
      ''Node.js (Express) - JavaScript full-stack, familiar syntax'',
      ''Django (Python) - Full-featured, built-in admin, ORM'']"

definition exp_options :: "string list" where
  "exp_options =
     [''Expert - I've built production applications'',
      ''Intermediate - I've built some projects'',
      ''Beginner - I'm learning or new to it'']"

text \<open>Step 2 stores the framework before it asks for the experience, and stores the
  experience under a key of its own.\<close>

definition step_2_backend_framework :: "bool prog" where
  "step_2_backend_framework =
     bind (ask_question ''Which backend framework would you prefer?''
             framework_options True) (\<lambda>framework_choice.
     bind (assign ''backend_framework'' (PStr framework_choice)) (\<lambda>_.
     bind (ask_question ''What's your experience level with this framework?''
             exp_options True) (\<lambda>experience.
     bind (assign ''backend_framework_experience'' (PStr experience)) (\<lambda>_.
     return True))))"

definition llm_options :: "string list" where
  "llm_options =
     [''Mistral 7B (Local) - Privacy-focused, no API costs'',
      ''OpenAI GPT (API) - Powerful, easy to integrate'',
      ''Anthropic Claude (API) - Strong reasoning, safety-focused'',
      ''Hugging Face Models - Open source, customizable'']"

definition vector_options :: "string list" where
  "vector_options =
     [''Faiss (Facebook) - Fast, local, good for prototypes'',
      ''Pinecone - Managed, scalable, easy to use'',
      ''Weaviate - Open source, GraphQL API'',
      ''Chroma - Simple, local-first, Python-friendly'']"

definition step_3_llm_integration :: "bool prog" where
  "step_3_llm_integration =
     bind (ask_question ''Which LLM approach interests you most?'' llm_options True)
       (\<lambda>llm_choice.
     bind (ask_question ''Which vector database would you prefer?'' vector_options True)
       (\<lambda>vector_choice.
     bind (assign ''llm_requirements''
             (PDict [(''llm_choice'', llm_choice), (''vector_db'', vector_choice)])) (\<lambda>_.
     return True)))"

definition data_options :: "string list" where
  "data_options =
     [''Insurance company APIs - Real-time policy data'',
      ''Static datasets - CSV/JSON files with policy info'',
      ''Manual curation - Build your own policy database'',
      ''Third-party services - Insurance aggregator APIs'']"

definition complexity_options :: "string list" where
  "complexity_options =
     [''Simple - Basic plans with premium ranges'',
      ''Moderate - Multiple coverage types and tiers'',
      ''Complex - Detailed underwriting and calculations'']"

definition step_4_data_structure :: "bool prog" where
  "step_4_data_structure =
     bind (ask_question ''What's your primary data source for insurance information?''
             data_options True) (\<lambda>data_source.
     bind (ask_question ''How complex should your initial data model be?''
             complexity_options True) (\<lambda>complexity.
     bind (assign ''data_format''
             (PDict [(''source'', data_source), (''complexity'', complexity)])) (\<lambda>_.
     return True)))"

definition api_options :: "string list" where
  "api_options =
     [''REST - Simple, widely supported'',
      ''GraphQL - Flexible queries, single endpoint'',
      ''FastAPI/OpenAPI - Auto-generated docs, type safety'']"

definition realtime_options :: "string list" where
  "realtime_options =
     [''Yes - WebSocket for live chat'',
      ''Yes - Server-sent events for updates'',
      ''No - Standard HTTP requests are fine'']"

definition step_5_api_design :: "bool prog" where
  "step_5_api_design =
     bind (ask_question ''What API style do you prefer?'' api_options True) (\<lambda>api_style.
     bind (ask_question ''Do you need real-time features?'' realtime_options True)
       (\<lambda>realtime.
     bind (assign ''api_design'' (PDict [(''style'', api_style), (''realtime'', realtime)]))
       (\<lambda>_.
     return True)))"

definition auth_options :: "string list" where
  "auth_options =
     [''None - Anonymous quotes (simplest start)'',
      ''Basic - Email/password registration'',
      ''OAuth - Google/Facebook login'',
      ''Enterprise - SAML/LDAP integration'']"

definition privacy_options :: "string list" where
  "privacy_options =
     [''Low - General health questions only'',
      ''Medium - Some medical history'',
      ''High - Detailed medical records (HIPAA compliance needed)'']"

definition step_6_authentication_security :: "bool prog" where
  "step_6_authentication_security =
     bind (ask_question ''What authentication approach do you need?'' auth_options True)
       (\<lambda>auth_choice.
     bind (ask_question ''How sensitive is the health data you'll handle?''
             privacy_options True) (\<lambda>privacy_level.
     bind (assign ''auth_requirements''
             (PDict [(''auth_type'', auth_choice), (''privacy_level'', privacy_level)]))
       (\<lambda>_.
     return True)))"

definition deploy_options :: "string list" where
  "deploy_options =
     [''Local development - Docker Compose'',
      ''Cloud platform - AWS/GCP/Azure'',
      ''PaaS solution - Heroku/Railway/Render'',
      ''Serverless - AWS Lambda/Vercel Functions'']"

definition scale_options :: "string list" where
  "scale_options =
     [''Small - <100 users/day'',
      ''Medium - 100-1000 users/day'',
      ''Large - 1000+ users/day'']"

definition step_7_deployment_scalability :: "bool prog" where
  "step_7_deployment_scalability =
     bind (ask_question ''Where would you like to deploy?'' deploy_options True)
       (\<lambda>deployment.
     bind (ask_question ''What's your expected initial scale?'' scale_options True)
       (\<lambda>scale.
     bind (assign ''deployment_target'' (PDict [(''platform'', deployment), (''scale'', scale)]))
       (\<lambda>_.
     return True)))"

definition comm_options :: "string list" where
  "comm_options =
     [''Axios (already used) - HTTP client library'',
      ''Fetch API - Native browser API'',
      ''TanStack Query - Advanced caching and sync'',
      ''Custom wrapper - Tailored to your needs'']"

definition error_options :: "string list" where
  "error_options =
     [''Basic - Simple try/catch blocks'',
      ''Intermediate - User-friendly error messages'',
      ''Advanced - Retry logic, fallbacks, monitoring'']"

definition step_8_communication_method :: "bool prog" where
  "step_8_communication_method =
     bind (ask_question ''How should we handle API communication?'' comm_options True)
       (\<lambda>communication.
     bind (ask_question ''How comprehensive should error handling be?'' error_options True)
       (\<lambda>error_handling.
     bind (assign ''communication_method''
             (PDict [(''client'', communication), (''error_handling'', error_handling)]))
       (\<lambda>_.
     return True)))"

section \<open>Saving the session\<close>

text \<open>\<open>save_session\<close> opens the file for writing and dumps \<open>session_data\<close>; any
  \<open>Exception\<close> of that is caught and reported, and the file keeps what it had.\<close>

definition save_session :: "world \<Rightarrow> world" where
  "save_session w =
     (case write_error w of
        None \<Rightarrow>
          print (newline @ floppy_disk @ '' Session saved to backend_assistant_session.json'')
            (w\<lparr>snapshot := Some (session_data w)\<rparr>)
      | Some e \<Rightarrow> print (warning_sign @ '' Could not save session: '' @ e) w)"

section \<open>The plan renderer\<close>

text \<open>\<open>repr\<close> of a string and of a dictionary of strings, for a dictionary formatted
  into an f-string; bytes beyond ASCII are taken to be printable.\<close>

definition hex_digit :: "nat \<Rightarrow> char" where
  "hex_digit d = (if d < 10 then char_of (48 + d) else char_of (87 + d))"

definition repr_char :: "char \<Rightarrow> char \<Rightarrow> string" where
  "repr_char q c =
     (let n = (of_char c :: nat)
      in if c = q \<or> n = 92 then [CHR 0x5C, c]
         else if n = 9 then [CHR 0x5C, CHR ''t'']
         else if n = 10 then [CHR 0x5C, CHR ''n'']
         else if n = 13 then [CHR 0x5C, CHR ''r'']
         else if n < 32 \<or> n = 127
           then [CHR 0x5C, CHR ''x'', hex_digit (n div 16), hex_digit (n mod 16)]
         else [c])"

definition repr_str :: "string \<Rightarrow> string" where
  "repr_str s =
     (let q = (if CHR 0x27 \<in> set s \<and> CHR 0x22 \<notin> set s then CHR 0x22 else CHR 0x27)
      in q # concat (map (repr_char q) s) @ [q])"

fun join :: "string \<Rightarrow> string list \<Rightarrow> string" where
  "join sep [] = []"
| "join sep [x] = x"
| "join sep (x # y # ys) = x @ sep @ join sep (y # ys)"

definition repr_dict :: "(string \<times> string) list \<Rightarrow> string" where
  "repr_dict d = ''{'' @ join '', '' (map (\<lambda>(k, v). repr_str k @ '': '' @ repr_str v) d) @ ''}''"

text \<open>What an f-string makes of a value.\<close>

fun py_str :: "pyval \<Rightarrow> string" where
  "py_str PNone = ''None''"
| "py_str (PStr s) = s"
| "py_str (PInt i) = str_int i"
| "py_str (PDict d) = repr_dict d"

definition type_name :: "pyval \<Rightarrow> string" where
  "type_name v = (case v of PNone \<Rightarrow> ''NoneType'' | PStr _ \<Rightarrow> ''str'' | PInt _ \<Rightarrow> ''int''
                  | PDict _ \<Rightarrow> ''dict'')"

text \<open>\<open>v.get(k, dflt)\<close>: only a dictionary has the method.\<close>

definition py_get :: "pyval \<Rightarrow> string \<Rightarrow> string \<Rightarrow> exn + string" where
  "py_get v k dflt =
     (case v of
        PDict d \<Rightarrow> Inr (dict_get d k dflt)
      | _ \<Rightarrow> Inl (AttributeError
                 ([CHR 0x27] @ type_name v @ [CHR 0x27] @ '' object has no attribute 'get'' @
                  [CHR 0x27])))"

text \<open>\<open>sub in v\<close>: a substring test on a string, a key test on a dictionary, a
  \<open>TypeError\<close> on \<open>None\<close> and on an integer.\<close>

definition py_in :: "string \<Rightarrow> pyval \<Rightarrow> exn + bool" where
  "py_in sub v =
     (case v of
        PStr s \<Rightarrow> Inr (contains sub s)
      | PDict d \<Rightarrow> Inr (sub \<in> set (keys d))
      | _ \<Rightarrow> Inl (TypeError
                 (''argument of type '' @ [CHR 0x27] @ type_name v @ [CHR 0x27] @
                  '' is not iterable'')))"

definition lift :: "exn + 'a \<Rightarrow> 'a prog" where
  "lift r w = (r, w)"

definition fastapi_steps :: "string list" where
  "fastapi_steps =
     [newline @ ''1. Set up FastAPI project:'',
      ''   pip install fastapi uvicorn'',
      ''   Check: backend-guide/frameworks/fastapi/'']"

definition flask_steps :: "string list" where
  "flask_steps =
     [newline @ ''1. Set up Flask project:'',
      ''   pip install flask flask-cors'',
      ''   Check: backend-guide/frameworks/flask/'']"

definition nodejs_steps :: "string list" where
  "nodejs_steps =
     [newline @ ''1. Set up Node.js project:'',
      ''   npm init && npm install express cors'',
      ''   Check: backend-guide/frameworks/nodejs/'']"

definition generic_steps :: "string list" where
  "generic_steps =
     [newline @ ''2. Update frontend integration:'',
      ''   '' @ bullet @ '' Replace getQuotation() placeholder in src/pages/chat.jsx'',
      ''   '' @ bullet @ '' Add proper API endpoints'',
      ''   '' @ bullet @ '' Implement error handling'',
      newline @ ''3. Explore detailed guides:'',
      ''   '' @ bullet @ '' Architecture diagrams: backend-guide/architecture/'',
      ''   '' @ bullet @ '' Code templates: backend-guide/templates/'',
      ''   '' @ bullet @ '' Deployment guides: backend-guide/deployment/'',
      newline @ ''4. Run the assistant again anytime:'',
      ''   python backend-guide/assistant.py'']"

text \<open>The \<open>if\<close>/\<open>elif\<close> chain of \<open>generate_next_steps\<close>: the lines of the first framework
  whose name occurs in the recorded answer, or none.\<close>

definition framework_steps :: "pyval \<Rightarrow> string list prog" where
  "framework_steps framework =
     bind (lift (py_in ''FastAPI'' framework)) (\<lambda>is_fastapi.
       if is_fastapi then return fastapi_steps
       else bind (lift (py_in ''Flask'' framework)) (\<lambda>is_flask.
         if is_flask then return flask_steps
         else bind (lift (py_in ''Node.js'' framework)) (\<lambda>is_nodejs.
           if is_nodejs then return nodejs_steps else return [])))"

definition generate_next_steps :: "unit prog" where
  "generate_next_steps =
     bind (say (newline @ rocket @ '' NEXT STEPS:'')) (\<lambda>_ w.
     bind (framework_steps (dict_get (session_data w) ''backend_framework'' (PStr [])))
       (\<lambda>specific w'. (Inr (), prints (specific @ generic_steps) w')) w)"

text \<open>One numbered section of the plan: the dictionary stored under \<open>key\<close> (an empty one
  when the key is missing) and two of its entries, each with the placeholder
  \<open>Not specified\<close> for a missing entry.\<close>

definition not_specified :: string where
  "not_specified = ''Not specified''"

definition plan_section :: "string \<Rightarrow> string \<Rightarrow> string \<Rightarrow> string \<Rightarrow> string \<Rightarrow> unit prog" where
  "plan_section key label1 field1 label2 field2 w =
     (let info = dict_get (session_data w) key (PDict [])
      in bind (lift (py_get info field1 not_specified)) (\<lambda>value1.
         bind (say (label1 @ value1)) (\<lambda>_.
         bind (lift (py_get info field2 not_specified)) (\<lambda>value2.
         say (label2 @ value2)))) w)"

definition generate_implementation_plan :: "unit prog" where
  "generate_implementation_plan w =
     (if sigint_plan w then (Inl KeyboardInterrupt, w)
      else
        bind (say (newline @ clipboard @ '' IMPLEMENTATION PLAN'')) (\<lambda>_.
        bind (say (replicate 50 CHR ''='')) (\<lambda>_.
        bind (say (newline @ direct_hit @ '' Your Customized Backend Implementation Plan:''))
          (\<lambda>_.
        bind (\<lambda>w. say (newline @ ''1. **Backend Framework**: '' @
                py_str (dict_get (session_data w) ''backend_framework'' (PStr not_specified))) w)
          (\<lambda>_.
        bind (plan_section ''llm_requirements''
                (newline @ ''2. **LLM Integration**: '') ''llm_choice''
                ''   **Vector DB**: '' ''vector_db'') (\<lambda>_.
        bind (plan_section ''data_format''
                (newline @ ''3. **Data Source**: '') ''source''
                ''   **Complexity**: '' ''complexity'') (\<lambda>_.
        bind (plan_section ''api_design''
                (newline @ ''4. **API Style**: '') ''style''
                ''   **Real-time**: '' ''realtime'') (\<lambda>_.
        bind (plan_section ''auth_requirements''
                (newline @ ''5. **Authentication**: '') ''auth_type''
                ''   **Privacy Level**: '' ''privacy_level'') (\<lambda>_.
        bind (plan_section ''deployment_target''
                (newline @ ''6. **Deployment**: '') ''platform''
                ''   **Scale**: '' ''scale'') (\<lambda>_.
        bind (say (newline @ replicate 50 CHR ''='')) (\<lambda>_.
        bind (say (check_mark @ '' Plan generated! Check the framework-specific guides '' @
                ''for detailed implementation.'')) (\<lambda>_.
        generate_next_steps))))))))))) w)"

section \<open>The sequencer\<close>

text \<open>
  \<open>run\<close> returns nothing; the model returns which of its \<open>return\<close> statements ended it:
  after the plan, after a declined continuation, in the handler of an interrupt inside the
  loop, in the handler of another exception inside the loop, or in the handler of an
  interrupt around the whole run. The number is the loop index \<open>i\<close>.
\<close>

datatype outcome = Completed | Declined nat | Paused nat | Failed nat exn | Goodbye

definition continue_options :: "string list" where
  "continue_options = [''Yes, continue'', ''No, let me review this step'']"

text \<open>The body of the inner \<open>try\<close> for the step at index \<open>i\<close> of \<open>n\<close>; its result is
  whether the body has returned from \<open>run\<close>.\<close>

definition try_step :: "nat \<Rightarrow> nat \<Rightarrow> bool prog \<Rightarrow> bool prog" where
  "try_step n i step =
     bind step (\<lambda>_.
     bind (assign ''current_step'' (PInt (int i + 1))) (\<lambda>_.
     if i < n then
       bind (ask_question ''Ready to continue to the next step?'' continue_options True)
         (\<lambda>answer.
           if contains ''No'' answer then
             (\<lambda>w. (Inr True,
                save_session
                  (prints [newline @ pause_sign @ '' Feel free to review the information above.'',
                           ''Run the assistant again when you're ready to continue!''] w)))
           else return False)
     else return False))"

text \<open>The \<open>for\<close> loop over the steps still to run. \<open>None\<close>: the loop ran to its end. Every
  exception of the model other than \<open>KeyboardInterrupt\<close> is an \<open>Exception\<close>.\<close>

fun run_steps :: "nat \<Rightarrow> nat \<Rightarrow> bool prog list \<Rightarrow> world \<Rightarrow> outcome option \<times> world" where
  "run_steps n i [] w = (None, w)"
| "run_steps n i (step # steps) w =
     (case try_step n i step w of
        (Inr returned, w') \<Rightarrow>
          if returned then (Some (Declined i), w') else run_steps n (Suc i) steps w'
      | (Inl KeyboardInterrupt, w') \<Rightarrow>
          (Some (Paused i),
           save_session
             (print (newline @ newline @ pause_sign @
                     '' Assistant paused. Your progress has been saved.'') w'))
      | (Inl e, w') \<Rightarrow>
          (Some (Failed i e),
           prints [newline @ cross_mark @ '' Error in step '' @ str_nat i @ '': '' @ exn_str e,
                   ''Don't worry, you can restart the assistant anytime!''] w'))"

definition steps :: "bool prog list" where
  "steps =
     [step_1_frontend_analysis, step_2_backend_framework, step_3_llm_integration,
      step_4_data_structure, step_5_api_design, step_6_authentication_security,
      step_7_deployment_scalability, step_8_communication_method]"

text \<open>The welcome banner is constant text; of \<open>display_welcome\<close> the model keeps that the
  operator may interrupt it.\<close>

definition display_welcome :: "unit prog" where
  "display_welcome w = (if sigint_welcome w then (Inl KeyboardInterrupt, w) else (Inr (), w))"

definition run_body :: "outcome prog" where
  "run_body =
     bind display_welcome (\<lambda>_ w.
       case run_steps (length steps) 1 steps w of
         (Some oc, w') \<Rightarrow> (Inr oc, w')
       | (None, w') \<Rightarrow>
           bind generate_implementation_plan (\<lambda>_ w''.
             (Inr Completed,
              prints [newline @ party_popper @
                        '' Congratulations! You have a complete backend development plan.'',
                      ''Check the framework-specific guides in backend-guide/frameworks/ '' @
                        ''to start coding!'']
                (save_session w''))) w')"

definition run :: "outcome prog" where
  "run w =
     (case run_body w of
        (Inl KeyboardInterrupt, w') \<Rightarrow>
          (Inr Goodbye,
           prints [newline @ newline @ waving_hand @
                     '' Thanks for using the Backend Development Assistant!'',
                   ''Run it again anytime: python backend-guide/assistant.py''] w')
      | r \<Rightarrow> r)"

text \<open>\<open>main\<close>: a fresh assistant is run. Its arguments are the environment: the events of
  the terminal, what the snapshot file holds beforehand, and the three facts of \<open>world\<close>.\<close>

definition start :: "event list \<Rightarrow> session option \<Rightarrow> string option \<Rightarrow> bool \<Rightarrow> bool \<Rightarrow> world" where
  "start ins file werr sw sp =
     \<lparr>session_data = init, stdin = ins, stdout = [], snapshot = file, write_error = werr,
      sigint_welcome = sw, sigint_plan = sp\<rparr>"

definition main :: "event list \<Rightarrow> session option \<Rightarrow> string option \<Rightarrow> bool \<Rightarrow> bool \<Rightarrow>
    (exn + outcome) \<times> world" where
  "main ins file werr sw sp = run (start ins file werr sw sp)"

section \<open>Vocabulary of the properties\<close>


text \<open>Whether some printed line shows the text \<open>v\<close>.\<close>

definition mentions :: "written list \<Rightarrow> string \<Rightarrow> bool" where
  "mentions out v = list_ex (\<lambda>x. case x of Print s \<Rightarrow> contains v s | Prompt _ \<Rightarrow> False) out"

text \<open>The field of the record that step \<open>j\<close> fills: the \<open>j\<close>-th key of the constructor.
  Step 2 also adds the key \<open>backend_framework_experience\<close>.\<close>

definition owned :: "nat \<Rightarrow> string" where
  "owned j = (if 1 \<le> j \<and> j \<le> 8 then fst (init ! (j - 1)) else [])"

definition experience_key :: string where
  "experience_key = ''backend_framework_experience''"

definition untouched :: "nat \<Rightarrow> session \<Rightarrow> bool" where
  "untouched j sd = (map_of sd (owned j) = Some PNone)"

fun is_str :: "pyval \<Rightarrow> bool" where
  "is_str (PStr s) = True"
| "is_str _ = False"

fun has_fields :: "string list \<Rightarrow> pyval \<Rightarrow> bool" where
  "has_fields ks (PDict d) = (keys d = ks)"
| "has_fields ks _ = False"

definition field_names :: "nat \<Rightarrow> string list" where
  "field_names j =
     [[''framework'', ''styling'', ''familiarity''], [],
      [''llm_choice'', ''vector_db''], [''source'', ''complexity''],
      [''style'', ''realtime''], [''auth_type'', ''privacy_level''],
      [''platform'', ''scale''], [''client'', ''error_handling'']] ! (j - 1)"

text \<open>Step \<open>j\<close> has stored its answers: a dictionary with the step's entries, or for step 2
  the two strings of the framework and of the experience.\<close>

definition answered :: "nat \<Rightarrow> session \<Rightarrow> bool" where
  "answered j sd =
     (case map_of sd (owned j) of
        None \<Rightarrow> False
      | Some v \<Rightarrow>
          if j = 2 then
            is_str v \<and> (case map_of sd experience_key of None \<Rightarrow> False | Some x \<Rightarrow> is_str x)
          else has_fields (field_names j) v)"

text \<open>
  \<open>progress c a u sd\<close>: the record \<open>sd\<close> has \<open>current_step = c\<close>, the steps up to \<open>a\<close>
  have stored their answers, the steps from \<open>u\<close> on have left their field \<open>None\<close>, and
  the keys are those of the constructor, followed by the experience key once step 2 has
  stored its answers. Before step \<open>c\<close> starts the record is \<open>at_head c\<close>; while step \<open>c\<close>
  runs it is \<open>in_step c\<close>, which leaves open what step \<open>c\<close> itself has stored; when step
  \<open>c\<close> has returned and \<open>current_step\<close> is not yet advanced it is \<open>finished c\<close>.
\<close>

definition progress :: "nat \<Rightarrow> nat \<Rightarrow> nat \<Rightarrow> session \<Rightarrow> bool" where
  "progress c a u sd =
     (map_of sd ''current_step'' = Some (PInt (int c)) \<and>
      list_all (\<lambda>j. (j \<le> a \<longrightarrow> answered j sd) \<and> (u \<le> j \<longrightarrow> untouched j sd)) [1 ..< 9] \<and>
      keys sd = (if 2 \<le> a then keys init @ [experience_key] else keys init))"

definition at_head :: "nat \<Rightarrow> session \<Rightarrow> bool" where
  "at_head c sd = progress c (c - 1) c sd"

definition in_step :: "nat \<Rightarrow> session \<Rightarrow> bool" where
  "in_step c sd = progress c (c - 1) (c + 1) sd"

definition finished :: "nat \<Rightarrow> session \<Rightarrow> bool" where
  "finished c sd = progress c c (c + 1) sd"

text \<open>The string stored under \<open>field\<close> of the dictionary stored under \<open>key\<close>, if there is one.\<close>

definition recorded :: "session \<Rightarrow> string \<Rightarrow> string \<Rightarrow> string option" where
  "recorded sd key field =
     (case map_of sd key of Some (PDict d) \<Rightarrow> map_of d field | _ \<Rightarrow> None)"

text \<open>What \<open>save_session\<close> leaves in the file: the record, or what the file held when
  writing fails.\<close>

definition saved :: "world \<Rightarrow> session option \<Rightarrow> bool" where
  "saved w old =
     (snapshot w = (case write_error w of None \<Rightarrow> Some (session_data w) | Some e \<Rightarrow> old))"

text \<open>Two worlds that differ in the terminal only.\<close>

definition same_store :: "world \<Rightarrow> world \<Rightarrow> bool" where
  "same_store w w' =
     (session_data w' = session_data w \<and> snapshot w' = snapshot w \<and>
      write_error w' = write_error w \<and> sigint_welcome w' = sigint_welcome w \<and>
      sigint_plan w' = sigint_plan w)"

text \<open>Two worlds with the same environment and the same file.\<close>

definition same_file :: "world \<Rightarrow> world \<Rightarrow> bool" where
  "same_file w w' =
     (snapshot w' = snapshot w \<and> write_error w' = write_error w \<and>
      sigint_welcome w' = sigint_welcome w \<and> sigint_plan w' = sigint_plan w)"

text \<open>
  The plan as the specification describes it, for a record whose listed fields are all
  answered: the heading, one line for each listed field with the value recorded for it,
  the closing lines, and the next steps for the recorded framework. \<open>value_at\<close> reads a
  recorded value and is meant for fields that are recorded.
\<close>

definition value_at :: "session \<Rightarrow> string \<Rightarrow> string \<Rightarrow> string" where
  "value_at sd key field = the (recorded sd key field)"

definition framework_of :: "session \<Rightarrow> string" where
  "framework_of sd = (case map_of sd ''backend_framework'' of Some (PStr f) \<Rightarrow> f | _ \<Rightarrow> [])"

definition plan_report :: "session \<Rightarrow> string list" where
  "plan_report sd =
     [newline @ clipboard @ '' IMPLEMENTATION PLAN'',
      replicate 50 CHR ''='',
      newline @ direct_hit @ '' Your Customized Backend Implementation Plan:'',
      newline @ ''1. **Backend Framework**: '' @ framework_of sd,
      newline @ ''2. **LLM Integration**: '' @ value_at sd ''llm_requirements'' ''llm_choice'',
      ''   **Vector DB**: '' @ value_at sd ''llm_requirements'' ''vector_db'',
      newline @ ''3. **Data Source**: '' @ value_at sd ''data_format'' ''source'',
      ''   **Complexity**: '' @ value_at sd ''data_format'' ''complexity'',
      newline @ ''4. **API Style**: '' @ value_at sd ''api_design'' ''style'',
      ''   **Real-time**: '' @ value_at sd ''api_design'' ''realtime'',
      newline @ ''5. **Authentication**: '' @ value_at sd ''auth_requirements'' ''auth_type'',
      ''   **Privacy Level**: '' @ value_at sd ''auth_requirements'' ''privacy_level'',
      newline @ ''6. **Deployment**: '' @ value_at sd ''deployment_target'' ''platform'',
      ''   **Scale**: '' @ value_at sd ''deployment_target'' ''scale'',
      newline @ replicate 50 CHR ''='',
      check_mark @ '' Plan generated! Check the framework-specific guides '' @
        ''for detailed implementation.'',
      newline @ rocket @ '' NEXT STEPS:''] @
     (if contains ''FastAPI'' (framework_of sd) then fastapi_steps
      else if contains ''Flask'' (framework_of sd) then flask_steps
      else if contains ''Node.js'' (framework_of sd) then nodejs_steps else []) @
     generic_steps"

text \<open>The fields that the plan lists are all recorded.\<close>

definition listed_fields_recorded :: "session \<Rightarrow> bool" where
  "listed_fields_recorded sd =
     ((case map_of sd ''backend_framework'' of Some v \<Rightarrow> is_str v | None \<Rightarrow> False) \<and>
      list_all (\<lambda>(key, field). recorded sd key field \<noteq> None)
        [(''llm_requirements'', ''llm_choice''), (''llm_requirements'', ''vector_db''),
         (''data_format'', ''source''), (''data_format'', ''complexity''),
         (''api_design'', ''style''), (''api_design'', ''realtime''),
         (''auth_requirements'', ''auth_type''), (''auth_requirements'', ''privacy_level''),
         (''deployment_target'', ''platform''), (''deployment_target'', ''scale'')])"

text \<open>What a step at index \<open>j\<close> may do: it leaves the file and the environment alone,
  and started on a record that is \<open>at_head j\<close> it ends with the record \<open>finished j\<close> when
  it returns, and \<open>in_step j\<close> when it raises.\<close>

definition step_ok :: "nat \<Rightarrow> bool prog \<Rightarrow> bool" where
  "step_ok j step =
     (\<forall>w r w'. step w = (r, w') \<longrightarrow>
        same_file w w' \<and>
        (at_head j (session_data w) \<longrightarrow>
           (case r of Inr x \<Rightarrow> finished j (session_data w')
            | Inl e \<Rightarrow> in_step j (session_data w'))))"

text \<open>The last things written.\<close>

definition ends_with :: "written list \<Rightarrow> written list \<Rightarrow> bool" where
  "ends_with out last_out =
     (length last_out \<le> length out \<and> drop (length out - length last_out) out = last_out)"

section \<open>Properties of \<open>ask_question\<close>\<close>

text \<open>The equation of \<open>str_nat\<close> unfolds without end; it is used where it is named.\<close>

declare str_nat.simps [simp del]




lemma ask_loop_custom:
  assumes "options \<noteq> []" "py_int (strip l) = Some (int (length options) + 1)" "strip t \<noteq> []"
  shows "ask_loop options True (Line l # Line t # ins) =
    ([Prompt choice_prompt, Prompt specify_prompt,
      Print (check_mark @ '' Custom choice: '' @ strip t)], Inr (strip t), ins)"
  using assms by (simp add: Let_def)




lemma ask_question_result:
  "fst (ask_question q options ac w) = fst (snd (ask_loop options ac (stdin w)))"
  "stdin (snd (ask_question q options ac w)) = snd (snd (ask_loop options ac (stdin w)))"
  "stdout (snd (ask_question q options ac w)) =
     stdout w @ ask_header q options ac @ fst (ask_loop options ac (stdin w))"
  by (simp_all add: ask_question_def split: prod.split)


lemma py_int_examples:
  "py_int (strip ''2'') = Some 2" "py_int (strip ''3'') = Some 3" "py_int (strip ''0'') = Some 0"
  "py_int (strip ''4'') = Some 4" "py_int (strip ''two'') = None" "strip '' x '' = ''x''"
  "strip '''' = []" "py_int (strip ''1'') = Some 1"
  by code_simp+






section \<open>Properties of the plan renderer\<close>

lemma say_prints: "prints ss (print s w) = prints (s # ss) w"
  by (simp add: prints_def print_def)

lemma framework_steps_fastapi:
  "contains ''FastAPI'' f \<Longrightarrow> framework_steps (PStr f) w = (Inr fastapi_steps, w)"
  by (simp add: framework_steps_def bind_def lift_def py_in_def return_def)

lemma framework_steps_none:
  "\<not> contains ''FastAPI'' f \<Longrightarrow> \<not> contains ''Flask'' f \<Longrightarrow> \<not> contains ''Node.js'' f \<Longrightarrow>
   framework_steps (PStr f) w = (Inr [], w)"
  by (simp add: framework_steps_def bind_def lift_def py_in_def return_def)

lemma generate_next_steps_eq:
  assumes "\<And>w'. framework_steps (dict_get (session_data w) ''backend_framework'' (PStr [])) w' =
    (Inr specific, w')"
  shows "generate_next_steps w =
    (Inr (), prints ((newline @ rocket @ '' NEXT STEPS:'') # specific @ generic_steps) w)"
  by (simp add: generate_next_steps_def bind_def say_def print_def prints_def assms)

lemma framework_lines_apart:
  "set (flask_steps @ nodejs_steps) \<inter>
     set ((newline @ rocket @ '' NEXT STEPS:'') # fastapi_steps @ generic_steps) = {}"
  "set (fastapi_steps @ flask_steps @ nodejs_steps) \<inter>
     set ((newline @ rocket @ '' NEXT STEPS:'') # generic_steps) = {}"
  by (simp_all add: flask_steps_def nodejs_steps_def fastapi_steps_def generic_steps_def
      newline_def rocket_def bullet_def)

text \<open>
  Claim C8. When the recorded backend framework is a string in which \<open>FastAPI\<close> occurs,
  \<open>generate_next_steps\<close> prints its header, the three FastAPI lines and the generic lines,
  and none of the Flask or Node.js lines is among them; when none of \<open>FastAPI\<close>, \<open>Flask\<close>
  and \<open>Node.js\<close> occurs in it, the header and the generic lines are printed, none of the
  framework lines is among them, and in both cases the call returns without an exception.
\<close>

theorem next_steps_by_framework:
  assumes "map_of (session_data w) ''backend_framework'' = Some (PStr f)"
  shows "(contains ''FastAPI'' f \<longrightarrow>
            generate_next_steps w =
              (Inr (), prints ((newline @ rocket @ '' NEXT STEPS:'') #
                                 fastapi_steps @ generic_steps) w) \<and>
            set (flask_steps @ nodejs_steps) \<inter>
              set ((newline @ rocket @ '' NEXT STEPS:'') # fastapi_steps @ generic_steps) = {}) \<and>
         (\<not> contains ''FastAPI'' f \<and> \<not> contains ''Flask'' f \<and> \<not> contains ''Node.js'' f \<longrightarrow>
            generate_next_steps w =
              (Inr (), prints ((newline @ rocket @ '' NEXT STEPS:'') # generic_steps) w) \<and>
            set (fastapi_steps @ flask_steps @ nodejs_steps) \<inter>
              set ((newline @ rocket @ '' NEXT STEPS:'') # generic_steps) = {})"
proof -
  have get: "dict_get (session_data w) ''backend_framework'' (PStr []) = PStr f"
    using assms by (simp add: dict_get_def)
  show ?thesis
  proof (intro conjI impI)
    assume "contains ''FastAPI'' f"
    then show "generate_next_steps w =
        (Inr (), prints ((newline @ rocket @ '' NEXT STEPS:'') # fastapi_steps @ generic_steps) w)"
      by (intro generate_next_steps_eq) (simp add: get framework_steps_fastapi)
  next
    assume "\<not> contains ''FastAPI'' f \<and> \<not> contains ''Flask'' f \<and> \<not> contains ''Node.js'' f"
    then have "generate_next_steps w =
        (Inr (), prints ((newline @ rocket @ '' NEXT STEPS:'') # [] @ generic_steps) w)"
      by (intro generate_next_steps_eq) (simp add: get framework_steps_none)
    then show "generate_next_steps w =
        (Inr (), prints ((newline @ rocket @ '' NEXT STEPS:'') # generic_steps) w)"
      by simp
  qed (rule framework_lines_apart)+
qed

lemma contains_examples:
  "contains ''FastAPI'' ''FastAPI (Python) - High performance, automatic API docs''"
  "\<not> contains ''FastAPI'' ''Django (Python) - Full-featured, built-in admin, ORM''"
  "\<not> contains ''Flask'' ''Django (Python) - Full-featured, built-in admin, ORM''"
  "\<not> contains ''Node.js'' ''Django (Python) - Full-featured, built-in admin, ORM''"
  by code_simp+

theorem next_steps_by_framework_witness:
  "generate_next_steps
     ((start [] None None False False)
        \<lparr>session_data := [(''backend_framework'',
            PStr ''FastAPI (Python) - High performance, automatic API docs'')]\<rparr>) =
     (Inr (), prints ((newline @ rocket @ '' NEXT STEPS:'') # fastapi_steps @ generic_steps)
        ((start [] None None False False)
           \<lparr>session_data := [(''backend_framework'',
               PStr ''FastAPI (Python) - High performance, automatic API docs'')]\<rparr>)) \<and>
   generate_next_steps
     ((start [] None None False False)
        \<lparr>session_data := [(''backend_framework'',
            PStr ''Django (Python) - Full-featured, built-in admin, ORM'')]\<rparr>) =
     (Inr (), prints ((newline @ rocket @ '' NEXT STEPS:'') # generic_steps)
        ((start [] None None False False)
           \<lparr>session_data := [(''backend_framework'',
               PStr ''Django (Python) - Full-featured, built-in admin, ORM'')]\<rparr>))"
  using next_steps_by_framework [where f = "''FastAPI (Python) - High performance, automatic API docs''"
      and w = "(start [] None None False False)
        \<lparr>session_data := [(''backend_framework'',
            PStr ''FastAPI (Python) - High performance, automatic API docs'')]\<rparr>"]
    next_steps_by_framework [where f = "''Django (Python) - Full-featured, built-in admin, ORM''"
      and w = "(start [] None None False False)
        \<lparr>session_data := [(''backend_framework'',
            PStr ''Django (Python) - Full-featured, built-in admin, ORM'')]\<rparr>"]
    contains_examples
  by simp

section \<open>The record through the steps\<close>

lemma map_of_dict_set: "map_of (dict_set k v d) = (map_of d)(k \<mapsto> v)"
  by (induction d) (auto simp: fun_eq_iff)

lemma keys_dict_set:
  "keys (dict_set k v d) = (if k \<in> set (keys d) then keys d else keys d @ [k])"
  by (induction d) (force simp: keys_def)+

lemma upt_1_9: "[1 ..< 9] = [1, 2, 3, 4, 5, 6, 7, 8 :: nat]"
  by code_simp

lemma list_all_1_9:
  "list_all P [1 ..< 9] = (P 1 \<and> P 2 \<and> P 3 \<and> P 4 \<and> P 5 \<and> P 6 \<and> P 7 \<and> P (8 :: nat))"
  unfolding upt_1_9 by simp

lemma owned_simps:
  "owned (Suc 0) = ''frontend_tech_stack''" "owned 2 = ''backend_framework''"
  "owned 3 = ''llm_requirements''" "owned 4 = ''data_format''" "owned 5 = ''api_design''"
  "owned 6 = ''auth_requirements''" "owned 7 = ''deployment_target''"
  "owned 8 = ''communication_method''"
  by (simp_all add: owned_def init_def)

lemma keys_init:
  "keys init = [''frontend_tech_stack'', ''backend_framework'', ''llm_requirements'',
     ''data_format'', ''api_design'', ''auth_requirements'', ''deployment_target'',
     ''communication_method'', ''current_step'']"
  by (simp add: keys_def init_def)

lemma progress_iff:
  "progress c a u sd \<longleftrightarrow>
     map_of sd ''current_step'' = Some (PInt (int c)) \<and>
     (Suc 0 \<le> a \<longrightarrow> answered (Suc 0) sd) \<and> (u \<le> Suc 0 \<longrightarrow> untouched (Suc 0) sd) \<and>
     (2 \<le> a \<longrightarrow> answered 2 sd) \<and> (u \<le> 2 \<longrightarrow> untouched 2 sd) \<and>
     (3 \<le> a \<longrightarrow> answered 3 sd) \<and> (u \<le> 3 \<longrightarrow> untouched 3 sd) \<and>
     (4 \<le> a \<longrightarrow> answered 4 sd) \<and> (u \<le> 4 \<longrightarrow> untouched 4 sd) \<and>
     (5 \<le> a \<longrightarrow> answered 5 sd) \<and> (u \<le> 5 \<longrightarrow> untouched 5 sd) \<and>
     (6 \<le> a \<longrightarrow> answered 6 sd) \<and> (u \<le> 6 \<longrightarrow> untouched 6 sd) \<and>
     (7 \<le> a \<longrightarrow> answered 7 sd) \<and> (u \<le> 7 \<longrightarrow> untouched 7 sd) \<and>
     (8 \<le> a \<longrightarrow> answered 8 sd) \<and> (u \<le> 8 \<longrightarrow> untouched 8 sd) \<and>
     keys sd = (if 2 \<le> a then keys init @ [experience_key] else keys init)"
  unfolding progress_def list_all_1_9 by auto

lemma at_head_init: "at_head 1 init"
  by (simp add: at_head_def progress_iff untouched_def owned_simps) (simp add: init_def)

lemma at_head_in_step: "at_head c sd \<Longrightarrow> in_step c sd"
  by (simp add: at_head_def in_step_def progress_iff)

lemma untouched_dict_set:
  "owned j \<noteq> k \<Longrightarrow> untouched j (dict_set k v sd) = untouched j sd"
  by (simp add: untouched_def map_of_dict_set)

lemma answered_dict_set:
  "owned j \<noteq> k \<Longrightarrow> k \<noteq> experience_key \<Longrightarrow> answered j (dict_set k v sd) = answered j sd"
  by (auto simp: answered_def map_of_dict_set split: option.splits)

lemma answered_dict_set_experience:
  "owned j \<noteq> experience_key \<Longrightarrow> j \<noteq> 2 \<Longrightarrow>
   answered j (dict_set experience_key v sd) = answered j sd"
  by (auto simp: answered_def map_of_dict_set split: option.splits)

lemma finished_advance:
  assumes "finished c sd"
  shows "at_head (Suc c) (dict_set ''current_step'' (PInt (int c + 1)) sd)"
proof -
  have k: "''current_step'' \<in> set (keys sd)"
    using assms by (simp add: finished_def progress_iff keys_init split: if_splits)
  show ?thesis
    using assms k
    by (simp add: finished_def at_head_def progress_iff untouched_dict_set answered_dict_set
        owned_simps experience_key_def keys_dict_set map_of_dict_set)
qed

section \<open>What the steps do to the record\<close>

lemma ask_question_same_store:
  "ask_question q options ac w = (r, w') \<Longrightarrow> same_store w w'"
  by (auto simp: ask_question_def same_store_def split: prod.splits)

lemma bind_cases:
  assumes "bind m f w = (r, w')"
  obtains (raised) e where "m w = (Inl e, w')" "r = Inl e"
    | (returned) x w1 where "m w = (Inr x, w1)" "f x w1 = (r, w')"
  using assms by (auto simp: bind_def split: prod.splits sum.splits)

lemma two_question_step:
  assumes "bind (ask_question q1 o1 True) (\<lambda>a. bind (ask_question q2 o2 True) (\<lambda>b.
             bind (assign k (PDict [(f1, a), (f2, b)])) (\<lambda>_. return True))) w = (r, w')"
  shows "same_file w w' \<and>
         (case r of Inl e \<Rightarrow> session_data w' = session_data w
          | Inr x \<Rightarrow> \<exists>a b. session_data w' = dict_set k (PDict [(f1, a), (f2, b)]) (session_data w))"
  using assms
proof (cases rule: bind_cases)
  case (raised e)
  then show ?thesis
    using ask_question_same_store [of q1 o1 True w "Inl e" w']
    by (simp add: same_store_def same_file_def)
next
  case (returned a w1)
  note first = ask_question_same_store [OF returned(1)]
  from returned(2) show ?thesis
  proof (cases rule: bind_cases)
    case (raised e)
    then show ?thesis
      using first ask_question_same_store [of q2 o2 True w1 "Inl e" w']
      by (simp add: same_store_def same_file_def)
  next
    case (returned b w2)
    note second = ask_question_same_store [OF returned(1)]
    from returned(2) first second
    have "r = Inr True"
      and "session_data w' = dict_set k (PDict [(f1, a), (f2, b)]) (session_data w)"
      and "same_file w w'"
      by (auto simp: bind_def assign_def return_def set_item_def same_store_def same_file_def)
    then show ?thesis by auto
  qed
qed

lemma at_head_finish_1:
  assumes "at_head 1 sd" and "has_fields (field_names 1) v"
  shows "finished 1 (dict_set (owned 1) v sd)"
proof -
  have k: "owned 1 \<in> set (keys sd)"
    using assms(1)
    by (auto simp: at_head_def progress_iff keys_init owned_simps split: if_splits)
  have a: "answered 1 (dict_set (owned 1) v sd)"
    using assms(2) by (simp add: answered_def owned_simps map_of_dict_set)
  show ?thesis
    using assms(1) k a
    by (simp add: at_head_def finished_def progress_iff untouched_dict_set answered_dict_set
          owned_simps experience_key_def keys_dict_set map_of_dict_set)
qed

lemma at_head_finish_3:
  assumes "at_head 3 sd" and "has_fields (field_names 3) v"
  shows "finished 3 (dict_set (owned 3) v sd)"
proof -
  have k: "owned 3 \<in> set (keys sd)"
    using assms(1)
    by (auto simp: at_head_def progress_iff keys_init owned_simps split: if_splits)
  have a: "answered 3 (dict_set (owned 3) v sd)"
    using assms(2) by (simp add: answered_def owned_simps map_of_dict_set)
  show ?thesis
    using assms(1) k a
    by (simp add: at_head_def finished_def progress_iff untouched_dict_set answered_dict_set
          owned_simps experience_key_def keys_dict_set map_of_dict_set)
qed

lemma at_head_finish_4:
  assumes "at_head 4 sd" and "has_fields (field_names 4) v"
  shows "finished 4 (dict_set (owned 4) v sd)"
proof -
  have k: "owned 4 \<in> set (keys sd)"
    using assms(1)
    by (auto simp: at_head_def progress_iff keys_init owned_simps split: if_splits)
  have a: "answered 4 (dict_set (owned 4) v sd)"
    using assms(2) by (simp add: answered_def owned_simps map_of_dict_set)
  show ?thesis
    using assms(1) k a
    by (simp add: at_head_def finished_def progress_iff untouched_dict_set answered_dict_set
          owned_simps experience_key_def keys_dict_set map_of_dict_set)
qed

lemma at_head_finish_5:
  assumes "at_head 5 sd" and "has_fields (field_names 5) v"
  shows "finished 5 (dict_set (owned 5) v sd)"
proof -
  have k: "owned 5 \<in> set (keys sd)"
    using assms(1)
    by (auto simp: at_head_def progress_iff keys_init owned_simps split: if_splits)
  have a: "answered 5 (dict_set (owned 5) v sd)"
    using assms(2) by (simp add: answered_def owned_simps map_of_dict_set)
  show ?thesis
    using assms(1) k a
    by (simp add: at_head_def finished_def progress_iff untouched_dict_set answered_dict_set
          owned_simps experience_key_def keys_dict_set map_of_dict_set)
qed

lemma at_head_finish_6:
  assumes "at_head 6 sd" and "has_fields (field_names 6) v"
  shows "finished 6 (dict_set (owned 6) v sd)"
proof -
  have k: "owned 6 \<in> set (keys sd)"
    using assms(1)
    by (auto simp: at_head_def progress_iff keys_init owned_simps split: if_splits)
  have a: "answered 6 (dict_set (owned 6) v sd)"
    using assms(2) by (simp add: answered_def owned_simps map_of_dict_set)
  show ?thesis
    using assms(1) k a
    by (simp add: at_head_def finished_def progress_iff untouched_dict_set answered_dict_set
          owned_simps experience_key_def keys_dict_set map_of_dict_set)
qed

lemma at_head_finish_7:
  assumes "at_head 7 sd" and "has_fields (field_names 7) v"
  shows "finished 7 (dict_set (owned 7) v sd)"
proof -
  have k: "owned 7 \<in> set (keys sd)"
    using assms(1)
    by (auto simp: at_head_def progress_iff keys_init owned_simps split: if_splits)
  have a: "answered 7 (dict_set (owned 7) v sd)"
    using assms(2) by (simp add: answered_def owned_simps map_of_dict_set)
  show ?thesis
    using assms(1) k a
    by (simp add: at_head_def finished_def progress_iff untouched_dict_set answered_dict_set
          owned_simps experience_key_def keys_dict_set map_of_dict_set)
qed

lemma at_head_finish_8:
  assumes "at_head 8 sd" and "has_fields (field_names 8) v"
  shows "finished 8 (dict_set (owned 8) v sd)"
proof -
  have k: "owned 8 \<in> set (keys sd)"
    using assms(1)
    by (auto simp: at_head_def progress_iff keys_init owned_simps split: if_splits)
  have a: "answered 8 (dict_set (owned 8) v sd)"
    using assms(2) by (simp add: answered_def owned_simps map_of_dict_set)
  show ?thesis
    using assms(1) k a
    by (simp add: at_head_def finished_def progress_iff untouched_dict_set answered_dict_set
          owned_simps experience_key_def keys_dict_set map_of_dict_set)
qed

lemma at_head_framework:
  assumes "at_head 2 sd"
  shows "in_step 2 (dict_set ''backend_framework'' (PStr f) sd)"
proof -
  have k: "''backend_framework'' \<in> set (keys sd)"
    using assms
    by (auto simp: at_head_def progress_iff keys_init split: if_splits)
  show ?thesis
    using assms k
    by (simp add: at_head_def in_step_def progress_iff untouched_dict_set answered_dict_set
          owned_simps experience_key_def keys_dict_set map_of_dict_set)
qed

lemma owned_not_experience:
  "''frontend_tech_stack'' \<noteq> experience_key" "''backend_framework'' \<noteq> experience_key"
  "''llm_requirements'' \<noteq> experience_key" "''data_format'' \<noteq> experience_key"
  "''api_design'' \<noteq> experience_key" "''auth_requirements'' \<noteq> experience_key"
  "''deployment_target'' \<noteq> experience_key" "''communication_method'' \<noteq> experience_key"
  "''current_step'' \<noteq> experience_key"
  by (simp_all add: experience_key_def)

lemma at_head_finish_2:
  assumes "at_head 2 sd"
  shows "finished 2 (dict_set experience_key (PStr e)
           (dict_set ''backend_framework'' (PStr f) sd))"
proof -
  have k: "''backend_framework'' \<in> set (keys sd)" "experience_key \<notin> set (keys sd)"
    using assms
    by (auto simp: at_head_def progress_iff keys_init experience_key_def split: if_splits)
  have a: "answered 2 (dict_set experience_key (PStr e)
      (dict_set ''backend_framework'' (PStr f) sd))"
    by (simp add: answered_def owned_simps map_of_dict_set experience_key_def)
  show ?thesis
    using assms k a
    by (simp add: at_head_def finished_def progress_iff untouched_dict_set
          answered_dict_set answered_dict_set_experience owned_not_experience
          owned_simps keys_dict_set map_of_dict_set)
qed

section \<open>Each step keeps to its part of the record\<close>

lemma field_names_simps:
  "field_names (Suc 0) = [''framework'', ''styling'', ''familiarity'']"
  "field_names 3 = [''llm_choice'', ''vector_db'']"
  "field_names 4 = [''source'', ''complexity'']"
  "field_names 5 = [''style'', ''realtime'']"
  "field_names 6 = [''auth_type'', ''privacy_level'']"
  "field_names 7 = [''platform'', ''scale'']"
  "field_names 8 = [''client'', ''error_handling'']"
  by (simp_all add: field_names_def)

lemma two_question_step_ok:
  assumes step: "step = bind (ask_question q1 o1 True) (\<lambda>a. bind (ask_question q2 o2 True) (\<lambda>b.
             bind (assign k (PDict [(f1, a), (f2, b)])) (\<lambda>_. return True)))"
    and fin: "\<And>sd v. at_head j sd \<Longrightarrow> has_fields [f1, f2] v \<Longrightarrow> finished j (dict_set k v sd)"
  shows "step_ok j step"
  unfolding step_ok_def
proof (intro allI impI)
  fix w r w'
  assume "step w = (r, w')"
  from two_question_step [OF this [unfolded step]]
  have sf: "same_file w w'"
    and sd: "case r of Inl e \<Rightarrow> session_data w' = session_data w
          | Inr x \<Rightarrow> \<exists>a b. session_data w' = dict_set k (PDict [(f1, a), (f2, b)]) (session_data w)"
    by auto
  have "case r of Inr x \<Rightarrow> finished j (session_data w') | Inl e \<Rightarrow> in_step j (session_data w')"
    if h: "at_head j (session_data w)"
  proof (cases r)
    case (Inl e)
    with sd h show ?thesis by (simp add: at_head_in_step)
  next
    case (Inr x)
    with sd obtain a b where
      "session_data w' = dict_set k (PDict [(f1, a), (f2, b)]) (session_data w)" by auto
    with Inr h show ?thesis by (simp add: fin keys_def)
  qed
  with sf show "same_file w w' \<and> (at_head j (session_data w) \<longrightarrow>
    (case r of Inr x \<Rightarrow> finished j (session_data w') | Inl e \<Rightarrow> in_step j (session_data w')))"
    by simp
qed

lemma step_3_ok: "step_ok 3 step_3_llm_integration"
  by (rule two_question_step_ok [OF step_3_llm_integration_def])
     (use at_head_finish_3 in \<open>simp add: owned_simps field_names_simps\<close>)

lemma step_4_ok: "step_ok 4 step_4_data_structure"
  by (rule two_question_step_ok [OF step_4_data_structure_def])
     (use at_head_finish_4 in \<open>simp add: owned_simps field_names_simps\<close>)

lemma step_5_ok: "step_ok 5 step_5_api_design"
  by (rule two_question_step_ok [OF step_5_api_design_def])
     (use at_head_finish_5 in \<open>simp add: owned_simps field_names_simps\<close>)

lemma step_6_ok: "step_ok 6 step_6_authentication_security"
  by (rule two_question_step_ok [OF step_6_authentication_security_def])
     (use at_head_finish_6 in \<open>simp add: owned_simps field_names_simps\<close>)

lemma step_7_ok: "step_ok 7 step_7_deployment_scalability"
  by (rule two_question_step_ok [OF step_7_deployment_scalability_def])
     (use at_head_finish_7 in \<open>simp add: owned_simps field_names_simps\<close>)

lemma step_8_ok: "step_ok 8 step_8_communication_method"
  by (rule two_question_step_ok [OF step_8_communication_method_def])
     (use at_head_finish_8 in \<open>simp add: owned_simps field_names_simps\<close>)

lemma step_1_ok: "step_ok (Suc 0) step_1_frontend_analysis"
  unfolding step_ok_def step_1_frontend_analysis_def
proof (intro allI impI)
  fix w r w'
  assume run: "bind (ask_question ''How familiar are you with the current frontend data flow?''
      frontend_options True) (\<lambda>familiarity. bind (assign ''frontend_tech_stack''
        (PDict [(''framework'', ''React + Vite''), (''styling'', ''Tailwind CSS''),
                (''familiarity'', familiarity)])) (\<lambda>_. return True)) w = (r, w')"
  from run show "same_file w w' \<and> (at_head (Suc 0) (session_data w) \<longrightarrow>
    (case r of Inr x \<Rightarrow> finished (Suc 0) (session_data w')
     | Inl e \<Rightarrow> in_step (Suc 0) (session_data w')))"
  proof (cases rule: bind_cases)
    case (raised e)
    from ask_question_same_store [OF raised(1)] raised(2) show ?thesis
      by (simp add: same_store_def same_file_def at_head_in_step)
  next
    case (returned a w1)
    from ask_question_same_store [OF returned(1)] returned(2)
    show ?thesis
      using at_head_finish_1 [of "session_data w"
          "PDict [(''framework'', ''React + Vite''), (''styling'', ''Tailwind CSS''),
                  (''familiarity'', a)]"]
      by (auto simp: bind_def assign_def return_def set_item_def same_store_def same_file_def
          owned_simps field_names_simps keys_def)
  qed
qed

lemma step_2_ok: "step_ok 2 step_2_backend_framework"
  unfolding step_ok_def step_2_backend_framework_def
proof (intro allI impI)
  fix w r w'
  assume run: "bind (ask_question ''Which backend framework would you prefer?''
      framework_options True) (\<lambda>framework_choice.
      bind (assign ''backend_framework'' (PStr framework_choice)) (\<lambda>_.
      bind (ask_question ''What's your experience level with this framework?''
             exp_options True) (\<lambda>experience.
      bind (assign ''backend_framework_experience'' (PStr experience)) (\<lambda>_.
      return True)))) w = (r, w')"
  from run show "same_file w w' \<and> (at_head 2 (session_data w) \<longrightarrow>
    (case r of Inr x \<Rightarrow> finished 2 (session_data w') | Inl e \<Rightarrow> in_step 2 (session_data w')))"
  proof (cases rule: bind_cases)
    case (raised e)
    from ask_question_same_store [OF raised(1)] raised(2) show ?thesis
      by (simp add: same_store_def same_file_def at_head_in_step)
  next
    case (returned f w1)
    note first = ask_question_same_store [OF returned(1)]
    from returned(2) have "bind (ask_question ''What's your experience level with this framework?''
        exp_options True) (\<lambda>experience.
        bind (assign ''backend_framework_experience'' (PStr experience)) (\<lambda>_. return True))
        (set_item ''backend_framework'' (PStr f) w1) = (r, w')"
      by (simp add: bind_def assign_def)
    then show ?thesis
    proof (cases rule: bind_cases)
      case (raised e)
      from ask_question_same_store [OF raised(1)] raised(2) first show ?thesis
        using at_head_framework [of "session_data w" f]
        by (simp add: same_store_def same_file_def set_item_def)
    next
      case (returned e w2)
      from ask_question_same_store [OF returned(1)] returned(2) first show ?thesis
        using at_head_finish_2 [of "session_data w" e f]
        by (auto simp: bind_def assign_def return_def set_item_def same_store_def same_file_def
            experience_key_def)
    qed
  qed
qed

section \<open>The sequencer keeps the record in step\<close>

lemma steps_ok:
  assumes "m < length steps"
  shows "step_ok (1 + m) (steps ! m)"
proof -
  from assms have "m < 8" by (simp add: steps_def)
  then consider "m = 0" | "m = 1" | "m = 2" | "m = 3" | "m = 4" | "m = 5" | "m = 6" | "m = 7"
    by linarith
  then show ?thesis
    by cases
      (simp_all add: steps_def step_1_ok step_2_ok [unfolded numeral_2_eq_2]
        step_3_ok [unfolded numeral_3_eq_3] step_4_ok step_5_ok step_6_ok step_7_ok step_8_ok)
qed

lemma ends_with_append: "ends_with (out @ xs) xs"
  by (simp add: ends_with_def)

lemma save_session_effect:
  "session_data (save_session w) = session_data w"
  "write_error (save_session w) = write_error w"
  "sigint_welcome (save_session w) = sigint_welcome w"
  "sigint_plan (save_session w) = sigint_plan w"
  "stdin (save_session w) = stdin w"
  "saved (save_session w) (snapshot w)"
  by (simp_all add: save_session_def print_def saved_def split: option.split)

lemma prints_effect:
  "session_data (prints ss w) = session_data w"
  "write_error (prints ss w) = write_error w"
  "sigint_welcome (prints ss w) = sigint_welcome w"
  "sigint_plan (prints ss w) = sigint_plan w"
  "snapshot (prints ss w) = snapshot w"
  "stdin (prints ss w) = stdin w"
  "stdout (prints ss w) = stdout w @ map Print ss"
  by (simp_all add: prints_def)

lemma print_effect:
  "session_data (print s w) = session_data w"
  "write_error (print s w) = write_error w"
  "sigint_welcome (print s w) = sigint_welcome w"
  "sigint_plan (print s w) = sigint_plan w"
  "snapshot (print s w) = snapshot w"
  "stdin (print s w) = stdin w"
  "stdout (print s w) = stdout w @ [Print s]"
  by (simp_all add: print_def)

text \<open>The shapes the body of the inner \<open>try\<close> can take.\<close>

lemma try_step_cases:
  assumes "try_step n i step w = (r, w')"
  obtains (step_raised) e where "step w = (Inl e, w')" "r = Inl e"
    | (last_step) b w1 where "step w = (Inr b, w1)" "\<not> i < n" "r = Inr False"
        "w' = set_item ''current_step'' (PInt (int i + 1)) w1"
    | (ask_raised) b w1 e where "step w = (Inr b, w1)" "i < n" "r = Inl e"
        "ask_question ''Ready to continue to the next step?'' continue_options True
           (set_item ''current_step'' (PInt (int i + 1)) w1) = (Inl e, w')"
    | (declined) b w1 answer w2 where "step w = (Inr b, w1)" "i < n" "r = Inr True"
        "ask_question ''Ready to continue to the next step?'' continue_options True
           (set_item ''current_step'' (PInt (int i + 1)) w1) = (Inr answer, w2)"
        "contains ''No'' answer"
        "w' = save_session
           (prints [newline @ pause_sign @ '' Feel free to review the information above.'',
                    ''Run the assistant again when you're ready to continue!''] w2)"
    | (continued) b w1 answer where "step w = (Inr b, w1)" "i < n" "r = Inr False"
        "ask_question ''Ready to continue to the next step?'' continue_options True
           (set_item ''current_step'' (PInt (int i + 1)) w1) = (Inr answer, w')"
        "\<not> contains ''No'' answer"
proof (cases "step w")
  case (Pair sr w1)
  show ?thesis
  proof (cases sr)
    case (Inl e)
    with Pair assms have "step w = (Inl e, w')" "r = Inl e"
      by (auto simp: try_step_def bind_def)
    then show ?thesis by (rule step_raised)
  next
    case (Inr b)
    show ?thesis
    proof (cases "i < n")
      case False
      with Inr Pair assms have "r = Inr False"
        "w' = set_item ''current_step'' (PInt (int i + 1)) w1"
        by (auto simp: try_step_def bind_def assign_def return_def)
      with Inr Pair False show ?thesis by (intro last_step) auto
    next
      case True
      obtain ar w2 where ask: "ask_question ''Ready to continue to the next step?''
          continue_options True (set_item ''current_step'' (PInt (int i + 1)) w1) = (ar, w2)"
        by (cases "ask_question ''Ready to continue to the next step?''
          continue_options True (set_item ''current_step'' (PInt (int i + 1)) w1)") auto
      show ?thesis
      proof (cases ar)
        case (Inl e)
        with ask Inr Pair True assms have "r = Inl e" "w' = w2"
          by (auto simp: try_step_def bind_def assign_def return_def)
        with ask Inl Inr Pair True show ?thesis by (intro ask_raised) auto
      next
        case ans: (Inr answer)
        show ?thesis
        proof (cases "contains ''No'' answer")
          case yes: True
          with ask ans Inr Pair True assms have "r = Inr True"
            "w' = save_session
              (prints [newline @ pause_sign @ '' Feel free to review the information above.'',
                       ''Run the assistant again when you're ready to continue!''] w2)"
            by (auto simp: try_step_def bind_def assign_def return_def)
          with ask ans Inr Pair True yes show ?thesis by (intro declined) auto
        next
          case no: False
          with ask ans Inr Pair True assms have "r = Inr False" "w' = w2"
            by (auto simp: try_step_def bind_def assign_def return_def)
          with ask ans Inr Pair True no show ?thesis by (intro continued) auto
        qed
      qed
    qed
  qed
qed

lemma set_item_effect:
  "session_data (set_item k v w) = dict_set k v (session_data w)"
  "write_error (set_item k v w) = write_error w"
  "sigint_welcome (set_item k v w) = sigint_welcome w"
  "sigint_plan (set_item k v w) = sigint_plan w"
  "snapshot (set_item k v w) = snapshot w"
  "stdin (set_item k v w) = stdin w"
  "stdout (set_item k v w) = stdout w"
  by (simp_all add: set_item_def)

lemma step_okD:
  assumes "step_ok j step" and "step w = (r, w')"
  shows "same_file w w'"
    and "at_head j (session_data w) \<Longrightarrow> r = Inr x \<Longrightarrow> finished j (session_data w')"
    and "at_head j (session_data w) \<Longrightarrow> r = Inl e \<Longrightarrow> in_step j (session_data w')"
proof -
  from assms have both: "same_file w w' \<and> (at_head j (session_data w) \<longrightarrow>
      (case r of Inr x \<Rightarrow> finished j (session_data w') | Inl e \<Rightarrow> in_step j (session_data w')))"
    unfolding step_ok_def by blast
  from both show "same_file w w'" by simp
  from both show "at_head j (session_data w) \<Longrightarrow> r = Inr x \<Longrightarrow> finished j (session_data w')"
    by simp
  from both show "at_head j (session_data w) \<Longrightarrow> r = Inl e \<Longrightarrow> in_step j (session_data w')"
    by simp
qed

lemma try_step_ok:
  assumes ok: "step_ok i step" and head: "at_head i (session_data w)"
    and run: "try_step n i step w = (r, w')"
  shows "write_error w' = write_error w \<and> sigint_welcome w' = sigint_welcome w \<and>
         sigint_plan w' = sigint_plan w \<and>
         (case r of
            Inl e \<Rightarrow> (in_step i (session_data w') \<or> at_head (Suc i) (session_data w')) \<and>
                     snapshot w' = snapshot w
          | Inr returned \<Rightarrow>
              at_head (Suc i) (session_data w') \<and>
              (if returned then i < n \<and> saved w' (snapshot w) else snapshot w' = snapshot w))"
  using run
proof (cases rule: try_step_cases)
  case (step_raised e)
  from step_okD(1) [OF ok step_raised(1)] step_okD(3) [OF ok step_raised(1) head]
  show ?thesis using step_raised(2) by (simp add: same_file_def)
next
  case (last_step b w1)
  from step_okD(1) [OF ok last_step(1)] step_okD(2) [OF ok last_step(1) head]
  have "same_file w w1" "finished i (session_data w1)" by auto
  with last_step(3,4) show ?thesis
    by (simp add: same_file_def set_item_effect finished_advance)
next
  case (ask_raised b w1 e)
  from step_okD(1) [OF ok ask_raised(1)] step_okD(2) [OF ok ask_raised(1) head]
  have "same_file w w1" "finished i (session_data w1)" by auto
  with ask_raised(3) ask_question_same_store [OF ask_raised(4)] show ?thesis
    by (simp add: same_file_def same_store_def set_item_effect finished_advance)
next
  case (declined b w1 answer w2)
  from step_okD(1) [OF ok declined(1)] step_okD(2) [OF ok declined(1) head]
  have "same_file w w1" "finished i (session_data w1)" by auto
  with declined(2,3,6) ask_question_same_store [OF declined(4)]
    save_session_effect(6) [of "prints [newline @ pause_sign @
        '' Feel free to review the information above.'',
        ''Run the assistant again when you're ready to continue!''] w2"]
  show ?thesis
    by (simp add: same_file_def same_store_def set_item_effect finished_advance
        save_session_effect(1-5) prints_effect)
next
  case (continued b w1 answer)
  from step_okD(1) [OF ok continued(1)] step_okD(2) [OF ok continued(1) head]
  have "same_file w w1" "finished i (session_data w1)" by auto
  with continued(3) ask_question_same_store [OF continued(4)] show ?thesis
    by (simp add: same_file_def same_store_def set_item_effect finished_advance)
qed

lemma run_steps_Cons:
  "try_step n i step w = (Inr True, w1) \<Longrightarrow>
     run_steps n i (step # rest) w = (Some (Declined i), w1)"
  "try_step n i step w = (Inr False, w1) \<Longrightarrow>
     run_steps n i (step # rest) w = run_steps n (Suc i) rest w1"
  "try_step n i step w = (Inl KeyboardInterrupt, w1) \<Longrightarrow>
     run_steps n i (step # rest) w =
       (Some (Paused i),
        save_session (print (newline @ newline @ pause_sign @
          '' Assistant paused. Your progress has been saved.'') w1))"
  "try_step n i step w = (Inl e, w1) \<Longrightarrow> e \<noteq> KeyboardInterrupt \<Longrightarrow>
     run_steps n i (step # rest) w =
       (Some (Failed i e),
        prints [newline @ cross_mark @ '' Error in step '' @ str_nat i @ '': '' @ exn_str e,
                ''Don't worry, you can restart the assistant anytime!''] w1)"
proof -
  show "try_step n i step w = (Inr True, w1) \<Longrightarrow>
     run_steps n i (step # rest) w = (Some (Declined i), w1)" by simp
  show "try_step n i step w = (Inr False, w1) \<Longrightarrow>
     run_steps n i (step # rest) w = run_steps n (Suc i) rest w1" by simp
  show "try_step n i step w = (Inl KeyboardInterrupt, w1) \<Longrightarrow>
     run_steps n i (step # rest) w =
       (Some (Paused i),
        save_session (print (newline @ newline @ pause_sign @
          '' Assistant paused. Your progress has been saved.'') w1))" by simp
  show "try_step n i step w = (Inl e, w1) \<Longrightarrow> e \<noteq> KeyboardInterrupt \<Longrightarrow>
     run_steps n i (step # rest) w =
       (Some (Failed i e),
        prints [newline @ cross_mark @ '' Error in step '' @ str_nat i @ '': '' @ exn_str e,
                ''Don't worry, you can restart the assistant anytime!''] w1)"
    by (cases e) simp_all
qed

lemma run_steps_post:
  assumes "\<forall>m<length ss. step_ok (i + m) (ss ! m)"
    and "at_head i (session_data w)"
    and "run_steps n i ss w = (oc, w')"
  shows "write_error w' = write_error w \<and> sigint_welcome w' = sigint_welcome w \<and>
         sigint_plan w' = sigint_plan w \<and>
         (case oc of
            None \<Rightarrow> at_head (i + length ss) (session_data w') \<and> snapshot w' = snapshot w
          | Some Completed \<Rightarrow> False
          | Some Goodbye \<Rightarrow> False
          | Some (Declined k) \<Rightarrow>
              i \<le> k \<and> k < i + length ss \<and> k < n \<and> at_head (Suc k) (session_data w') \<and>
              saved w' (snapshot w)
          | Some (Paused k) \<Rightarrow>
              i \<le> k \<and> k < i + length ss \<and>
              (in_step k (session_data w') \<or> at_head (Suc k) (session_data w')) \<and>
              saved w' (snapshot w)
          | Some (Failed k e) \<Rightarrow>
              i \<le> k \<and> k < i + length ss \<and> e \<noteq> KeyboardInterrupt \<and>
              (in_step k (session_data w') \<or> at_head (Suc k) (session_data w')) \<and>
              snapshot w' = snapshot w \<and>
              ends_with (stdout w')
                [Print (newline @ cross_mark @ '' Error in step '' @ str_nat k @ '': '' @
                        exn_str e),
                 Print ''Don't worry, you can restart the assistant anytime!''])"
  using assms
proof (induction ss arbitrary: i w)
  case Nil
  then show ?case by simp
next
  case (Cons step rest)
  from Cons.prems(1) [rule_format, of 0] have ok: "step_ok i step" by simp
  have oks: "\<forall>m<length rest. step_ok (Suc i + m) (rest ! m)"
  proof (intro allI impI)
    fix m
    assume "m < length rest"
    then have "Suc m < length (step # rest)" by simp
    from Cons.prems(1) [rule_format, OF this] show "step_ok (Suc i + m) (rest ! m)" by simp
  qed
  obtain r w1 where body: "try_step n i step w = (r, w1)" by (cases "try_step n i step w") auto
  note post = try_step_ok [OF ok Cons.prems(2) body]
  show ?case
  proof (cases r)
    case (Inl e)
    show ?thesis
    proof (cases "e = KeyboardInterrupt")
      case True
      with Inl body Cons.prems(3) have "oc = Some (Paused i)"
        "w' = save_session (print (newline @ newline @ pause_sign @
                     '' Assistant paused. Your progress has been saved.'') w1)"
        by (simp_all add: run_steps_Cons del: run_steps.simps)
      with post Inl
        save_session_effect(6) [of "print (newline @ newline @ pause_sign @
                     '' Assistant paused. Your progress has been saved.'') w1"]
      show ?thesis by (simp add: save_session_effect(1-5) print_effect)
    next
      case False
      with Inl body Cons.prems(3) have "oc = Some (Failed i e)"
        "w' = prints [newline @ cross_mark @ '' Error in step '' @ str_nat i @ '': '' @ exn_str e,
                   ''Don't worry, you can restart the assistant anytime!''] w1"
        by (simp_all add: run_steps_Cons del: run_steps.simps)
      with post Inl False show ?thesis
        by (simp add: prints_effect ends_with_def)
    qed
  next
    case (Inr returned)
    show ?thesis
    proof (cases returned)
      case True
      with Inr body Cons.prems(3) have "oc = Some (Declined i)" "w' = w1"
        by (simp_all add: run_steps_Cons del: run_steps.simps)
      with post Inr True show ?thesis by simp
    next
      case False
      with Inr body Cons.prems(3) have rest: "run_steps n (Suc i) rest w1 = (oc, w')"
        by (simp add: run_steps_Cons del: run_steps.simps)
      from post Inr False have head: "at_head (Suc i) (session_data w1)" by simp
      note ih = Cons.IH [OF oks head rest]
      from post Inr False have env: "write_error w1 = write_error w"
        "sigint_welcome w1 = sigint_welcome w" "sigint_plan w1 = sigint_plan w"
        "snapshot w1 = snapshot w" by simp_all
      show ?thesis
      proof (cases oc)
        case None
        with ih env show ?thesis by simp
      next
        case (Some out)
        with ih env show ?thesis by (cases out) simp_all
      qed
    qed
  qed
qed

section \<open>The plan of a complete record\<close>

lemma starts_with_append: "starts_with (xs @ ys) xs"
  by (induction xs) simp_all

lemma contains_append: "contains xs (pre @ xs @ post)"
proof (induction pre)
  case Nil
  then show ?case by (cases "xs @ post") (use starts_with_append [of xs post] in auto)
next
  case (Cons a pre)
  then show ?case by simp
qed

lemma contains_ends_with: "ends_with out xs \<Longrightarrow> contains xs out"
proof -
  assume "ends_with out xs"
  then have "out = take (length out - length xs) out @ xs @ []"
    by (simp add: ends_with_def) (metis append_take_drop_id)
  then show ?thesis using contains_append [of xs "take (length out - length xs) out" "[]"]
    by simp
qed

lemma has_fields_two:
  assumes "has_fields [f1, f2] v" and "f1 \<noteq> f2"
  obtains a b where "v = PDict [(f1, a), (f2, b)]"
proof (cases v)
  case (PDict d)
  with assms(1) have "map fst d = [f1, f2]" by (simp add: keys_def)
  then obtain a b where "d = [(f1, a), (f2, b)]" by (auto simp: map_eq_Cons_conv)
  with PDict that show ?thesis by simp
qed (use assms in auto)

lemma answered_recorded:
  assumes "answered j sd" and "field_names j = [f1, f2]" and "f1 \<noteq> f2" and "j \<noteq> 2"
  shows "\<exists>a b. map_of sd (owned j) = Some (PDict [(f1, a), (f2, b)])"
proof -
  from assms(1,4) obtain v where v: "map_of sd (owned j) = Some v" "has_fields (field_names j) v"
    by (auto simp: answered_def split: option.splits)
  from v(2) assms(2) have "has_fields [f1, f2] v" by simp
  from has_fields_two [OF this assms(3)] v(1) show ?thesis by metis
qed

lemma plan_section_recorded:
  assumes "map_of (session_data w) key = Some (PDict [(f1, a), (f2, b)])" and "f1 \<noteq> f2"
  shows "plan_section key l1 f1 l2 f2 w = (Inr (), prints [l1 @ a, l2 @ b] w)"
  using assms
  by (simp add: plan_section_def dict_get_def py_get_def bind_def lift_def say_def print_def
      prints_def)

lemma framework_steps_str:
  "framework_steps (PStr f) w =
     (Inr (if contains ''FastAPI'' f then fastapi_steps
           else if contains ''Flask'' f then flask_steps
           else if contains ''Node.js'' f then nodejs_steps else []), w)"
  by (simp add: framework_steps_def bind_def lift_def py_in_def return_def)

lemma answered_framework:
  assumes "answered 2 sd"
  obtains fw ex where "map_of sd ''backend_framework'' = Some (PStr fw)"
    "map_of sd experience_key = Some (PStr ex)"
proof -
  from assms obtain v x where "map_of sd ''backend_framework'' = Some v" "is_str v"
    "map_of sd experience_key = Some x" "is_str x"
    by (auto simp: answered_def owned_simps split: option.splits)
  then show ?thesis using that by (cases v; cases x) auto
qed

lemma recorded_pair:
  assumes "map_of sd key = Some (PDict [(f1, a), (f2, b)])" and "f1 \<noteq> f2"
  shows "recorded sd key f1 = Some a" and "recorded sd key f2 = Some b"
    and "value_at sd key f1 = a" and "value_at sd key f2 = b"
  using assms by (simp_all add: recorded_def value_at_def)

lemma plan_of_complete_record:
  assumes head: "at_head 9 (session_data w)" and quiet: "\<not> sigint_plan w"
  shows "generate_implementation_plan w = (Inr (), prints (plan_report (session_data w)) w) \<and>
         listed_fields_recorded (session_data w)"
proof -
  let ?sd = "session_data w"
  from head have ans: "answered 2 ?sd" "answered 3 ?sd" "answered 4 ?sd" "answered 5 ?sd"
    "answered 6 ?sd" "answered 7 ?sd"
    by (simp_all add: at_head_def progress_iff)
  from answered_framework [OF ans(1)] obtain fw ex where
    fw: "map_of ?sd ''backend_framework'' = Some (PStr fw)" by blast
  from answered_recorded [OF ans(2), of "''llm_choice''" "''vector_db''"] obtain lc vd where
    llm: "map_of ?sd ''llm_requirements'' = Some (PDict [(''llm_choice'', lc), (''vector_db'', vd)])"
    by (auto simp: field_names_simps owned_simps)
  from answered_recorded [OF ans(3), of "''source''" "''complexity''"] obtain src cx where
    dat: "map_of ?sd ''data_format'' = Some (PDict [(''source'', src), (''complexity'', cx)])"
    by (auto simp: field_names_simps owned_simps)
  from answered_recorded [OF ans(4), of "''style''" "''realtime''"] obtain sty rt where
    api: "map_of ?sd ''api_design'' = Some (PDict [(''style'', sty), (''realtime'', rt)])"
    by (auto simp: field_names_simps owned_simps)
  from answered_recorded [OF ans(5), of "''auth_type''" "''privacy_level''"] obtain au pv where
    auth: "map_of ?sd ''auth_requirements'' =
      Some (PDict [(''auth_type'', au), (''privacy_level'', pv)])"
    by (auto simp: field_names_simps owned_simps)
  from answered_recorded [OF ans(6), of "''platform''" "''scale''"] obtain pl sc where
    dep: "map_of ?sd ''deployment_target'' = Some (PDict [(''platform'', pl), (''scale'', sc)])"
    by (auto simp: field_names_simps owned_simps)
  have fwo: "framework_of ?sd = fw" "dict_get ?sd ''backend_framework'' dflt = PStr fw" for dflt
    using fw by (simp_all add: framework_of_def dict_get_def)
  have vals:
    "value_at ?sd ''llm_requirements'' ''llm_choice'' = lc"
    "value_at ?sd ''llm_requirements'' ''vector_db'' = vd"
    "value_at ?sd ''data_format'' ''source'' = src"
    "value_at ?sd ''data_format'' ''complexity'' = cx"
    "value_at ?sd ''api_design'' ''style'' = sty"
    "value_at ?sd ''api_design'' ''realtime'' = rt"
    "value_at ?sd ''auth_requirements'' ''auth_type'' = au"
    "value_at ?sd ''auth_requirements'' ''privacy_level'' = pv"
    "value_at ?sd ''deployment_target'' ''platform'' = pl"
    "value_at ?sd ''deployment_target'' ''scale'' = sc"
    using llm dat api auth dep by (simp_all add: value_at_def recorded_def)
  have rec: "listed_fields_recorded ?sd"
    using fw llm dat api auth dep by (simp add: listed_fields_recorded_def recorded_def)
  have sections:
    "plan_section ''llm_requirements'' l1 ''llm_choice'' l2 ''vector_db'' v =
       (Inr (), prints [l1 @ lc, l2 @ vd] v)"
    "plan_section ''data_format'' l1 ''source'' l2 ''complexity'' v =
       (Inr (), prints [l1 @ src, l2 @ cx] v)"
    "plan_section ''api_design'' l1 ''style'' l2 ''realtime'' v =
       (Inr (), prints [l1 @ sty, l2 @ rt] v)"
    "plan_section ''auth_requirements'' l1 ''auth_type'' l2 ''privacy_level'' v =
       (Inr (), prints [l1 @ au, l2 @ pv] v)"
    "plan_section ''deployment_target'' l1 ''platform'' l2 ''scale'' v =
       (Inr (), prints [l1 @ pl, l2 @ sc] v)"
    if "session_data v = ?sd" for v l1 l2
    using that llm dat api auth dep by (simp_all add: plan_section_recorded)
  have next_steps: "generate_next_steps v =
      (Inr (), prints ((newline @ rocket @ '' NEXT STEPS:'') #
         (if contains ''FastAPI'' fw then fastapi_steps
          else if contains ''Flask'' fw then flask_steps
          else if contains ''Node.js'' fw then nodejs_steps else []) @ generic_steps) v)"
    if "session_data v = ?sd" for v
    by (rule generate_next_steps_eq) (simp add: that fwo framework_steps_str)
  have "generate_implementation_plan w = (Inr (), prints (plan_report ?sd) w)"
    using quiet
    by (simp add: generate_implementation_plan_def bind_def say_def sections next_steps
        print_effect prints_effect fwo)
       (simp add: plan_report_def fwo vals prints_def print_def)
  with rec show ?thesis by simp
qed

section \<open>The whole run\<close>

lemma start_effect:
  "session_data (start ins file werr sw sp) = init"
  "stdin (start ins file werr sw sp) = ins"
  "stdout (start ins file werr sw sp) = []"
  "snapshot (start ins file werr sw sp) = file"
  "write_error (start ins file werr sw sp) = werr"
  "sigint_welcome (start ins file werr sw sp) = sw"
  "sigint_plan (start ins file werr sw sp) = sp"
  by (simp_all add: start_def)

lemma steps_all_ok: "\<forall>m<length steps. step_ok (1 + m) (steps ! m)"
  using steps_ok by blast

lemma length_steps: "length steps = 8"
  by (simp add: steps_def)

text \<open>The remaining steps play no part in a run of the loop that returns at index \<open>k\<close>.\<close>

lemma run_steps_used:
  assumes "run_steps n i ss w = (Some oc, w')"
    and "oc = Declined k \<or> oc = Paused k \<or> oc = Failed k e"
  shows "i \<le> k \<and> run_steps n i (take (Suc k - i) ss) w = (Some oc, w')"
  using assms
proof (induction ss arbitrary: i w)
  case Nil
  then show ?case by simp
next
  case (Cons step rest)
  obtain r w1 where body: "try_step n i step w = (r, w1)" by (cases "try_step n i step w") auto
  show ?case
  proof (cases "r = Inr False")
    case True
    with body Cons.prems(1) have "run_steps n (Suc i) rest w1 = (Some oc, w')"
      by (simp add: run_steps_Cons del: run_steps.simps)
    from Cons.IH [OF this Cons.prems(2)]
    have le: "Suc i \<le> k" and used: "run_steps n (Suc i) (take (Suc k - Suc i) rest) w1 = (Some oc, w')"
      by simp_all
    from le have "take (Suc k - i) (step # rest) = step # take (Suc k - Suc i) rest"
      by (simp add: take_Cons' Suc_diff_le)
    with body True used le show ?thesis
      by (simp add: run_steps_Cons del: run_steps.simps)
  next
    case False
    have here: "run_steps n i (step # xs) w = run_steps n i (step # rest) w" for xs
    proof (cases r)
      case (Inl e')
      with body show ?thesis
        by (cases "e' = KeyboardInterrupt") (simp_all add: run_steps_Cons del: run_steps.simps)
    next
      case (Inr returned)
      with False body show ?thesis by (simp add: run_steps_Cons del: run_steps.simps)
    qed
    have idx: "k = i"
    proof (cases r)
      case (Inl e')
      with body Cons.prems show ?thesis
        by (cases "e' = KeyboardInterrupt") (auto simp: run_steps_Cons simp del: run_steps.simps)
    next
      case (Inr returned)
      with False body Cons.prems show ?thesis
        by (auto simp: run_steps_Cons simp del: run_steps.simps)
    qed
    from idx have "take (Suc k - i) (step # rest) = step # []" by simp
    with here [of "[]"] Cons.prems(1) idx show ?thesis by simp
  qed
qed

lemma main_cases:
  assumes "main ins file werr sw sp = (r, w')"
  obtains (at_welcome) w0 where "w0 = start ins file werr sw sp" "sw"
      "r = Inr Goodbye"
      "w' = prints [newline @ newline @ waving_hand @
                     '' Thanks for using the Backend Development Assistant!'',
                   ''Run it again anytime: python backend-guide/assistant.py''] w0"
  | (loop_exit) oc where "\<not> sw"
      "r = Inr oc"
      "run_steps 8 1 steps (start ins file werr sw sp) = (Some oc, w')"
  | (plan_interrupted) w1 where "\<not> sw"
      "sp"
      "r = Inr Goodbye"
      "run_steps 8 1 steps (start ins file werr sw sp) = (None, w1)"
      "w' = prints [newline @ newline @ waving_hand @
                     '' Thanks for using the Backend Development Assistant!'',
                   ''Run it again anytime: python backend-guide/assistant.py''] w1"
  | (completed) w1 where "\<not> sw"
      "\<not> sp"
      "r = Inr Completed"
      "run_steps 8 1 steps (start ins file werr sw sp) = (None, w1)"
      "w' = prints [newline @ party_popper @
                        '' Congratulations! You have a complete backend development plan.'',
                      ''Check the framework-specific guides in backend-guide/frameworks/ '' @
                        ''to start coding!'']
                (save_session (prints (plan_report (session_data w1)) w1))"
proof (cases sw)
  case True
  with assms have "r = Inr Goodbye"
    "w' = prints [newline @ newline @ waving_hand @
                     '' Thanks for using the Backend Development Assistant!'',
                   ''Run it again anytime: python backend-guide/assistant.py'']
                 (start ins file werr sw sp)"
    by (auto simp: main_def run_def run_body_def bind_def display_welcome_def start_effect)
  with True show ?thesis by (intro at_welcome [of "start ins file werr sw sp"]) auto
next
  case False
  let ?w0 = "start ins file werr sw sp"
  obtain oc w1 where loop: "run_steps 8 1 steps ?w0 = (oc, w1)"
    by (cases "run_steps 8 1 steps ?w0") auto
  have body: "run_body ?w0 =
      (case oc of Some out \<Rightarrow> (Inr out, w1)
       | None \<Rightarrow> bind generate_implementation_plan (\<lambda>_ w''.
             (Inr Completed,
              prints [newline @ party_popper @
                        '' Congratulations! You have a complete backend development plan.'',
                      ''Check the framework-specific guides in backend-guide/frameworks/ '' @
                        ''to start coding!'']
                (save_session w''))) w1)"
    using False loop
    by (simp add: run_body_def bind_def display_welcome_def start_effect length_steps
        split: option.split)
  from run_steps_post [OF _ _ loop] steps_all_ok at_head_init
  have post: "sigint_plan w1 = sp"
    "case oc of None \<Rightarrow> at_head (1 + length steps) (session_data w1) | Some out \<Rightarrow> True"
    by (auto simp: start_effect split: option.splits)
  show ?thesis
  proof (cases oc)
    case (Some out)
    with body assms have "r = Inr out" "w' = w1"
      by (auto simp: main_def run_def)
    with False Some loop show ?thesis by (intro loop_exit) auto
  next
    case None
    with post have head: "at_head 9 (session_data w1)" by (simp add: length_steps)
    show ?thesis
    proof (cases sp)
      case True
      with post have "generate_implementation_plan w1 = (Inl KeyboardInterrupt, w1)"
        by (simp add: generate_implementation_plan_def)
      with body None assms have "r = Inr Goodbye"
        "w' = prints [newline @ newline @ waving_hand @
                     '' Thanks for using the Backend Development Assistant!'',
                   ''Run it again anytime: python backend-guide/assistant.py''] w1"
        by (auto simp: main_def run_def bind_def)
      with False True None loop show ?thesis by (intro plan_interrupted) auto
    next
      case quiet: False
      with post have "\<not> sigint_plan w1" by simp
      from plan_of_complete_record [OF head this]
      have "generate_implementation_plan w1 = (Inr (), prints (plan_report (session_data w1)) w1)"
        by simp
      with body None assms have "r = Inr Completed"
        "w' = prints [newline @ party_popper @
                        '' Congratulations! You have a complete backend development plan.'',
                      ''Check the framework-specific guides in backend-guide/frameworks/ '' @
                        ''to start coding!'']
                (save_session (prints (plan_report (session_data w1)) w1))"
        by (auto simp: main_def run_def bind_def)
      with False quiet None loop show ?thesis by (intro completed) auto
    qed
  qed
qed

section \<open>The claims about the whole run\<close>

lemma progressD:
  assumes "progress c a u sd" and "1 \<le> j" and "j \<le> 8"
  shows "j \<le> a \<Longrightarrow> answered j sd" and "u \<le> j \<Longrightarrow> untouched j sd"
    and "map_of sd ''current_step'' = Some (PInt (int c))"
  using assms by (simp_all add: progress_def list_all_iff)

lemma main_loop_post:
  assumes "run_steps 8 1 steps (start ins file werr sw sp) = (oc, w')"
  shows "write_error w' = werr \<and>
         (case oc of
            None \<Rightarrow> at_head 9 (session_data w') \<and> snapshot w' = file
          | Some Completed \<Rightarrow> False
          | Some Goodbye \<Rightarrow> False
          | Some (Declined k) \<Rightarrow>
              1 \<le> k \<and> k \<le> 7 \<and> at_head (Suc k) (session_data w') \<and> saved w' file
          | Some (Paused k) \<Rightarrow>
              1 \<le> k \<and> k \<le> 8 \<and>
              (in_step k (session_data w') \<or> at_head (Suc k) (session_data w')) \<and>
              saved w' file
          | Some (Failed k e) \<Rightarrow>
              1 \<le> k \<and> k \<le> 8 \<and> e \<noteq> KeyboardInterrupt \<and>
              (in_step k (session_data w') \<or> at_head (Suc k) (session_data w')) \<and>
              snapshot w' = file \<and>
              ends_with (stdout w')
                [Print (newline @ cross_mark @ '' Error in step '' @ str_nat k @ '': '' @
                        exn_str e),
                 Print ''Don't worry, you can restart the assistant anytime!''])"
proof -
  have head: "at_head 1 (session_data (start ins file werr sw sp))"
    using at_head_init by (simp add: start_effect)
  from run_steps_post [OF steps_all_ok head assms] show ?thesis
    by (cases oc) (auto simp: start_effect length_steps split: outcome.splits)
qed

lemma saved_iff:
  "write_error w = werr \<Longrightarrow>
   saved w old = (snapshot w = (case werr of None \<Rightarrow> Some (session_data w) | Some e \<Rightarrow> old))"
  by (auto simp: saved_def)

text \<open>
  Claim C4. When the run ends because the continue question after step \<open>k\<close> was answered
  with a No: \<open>k\<close> is between 1 and 7; the fields of the steps \<open>k + 1\<close> to 8 are still
  \<open>None\<close>; the steps 1 to \<open>k\<close> have stored their answers and \<open>current_step\<close> is \<open>k + 1\<close>;
  \<open>save_session\<close> has run, so the file holds exactly this record (when the file cannot be
  written it keeps what it held); and the sequencer given only the first \<open>k\<close> steps ends
  in the same way in the same state, so no later step was invoked.
\<close>

theorem declined_stops_the_sequence:
  assumes "main ins file werr sw sp = (Inr (Declined k), w')"
  shows "1 \<le> k \<and> k \<le> 7 \<and>
         (\<forall>j. k < j \<and> j \<le> 8 \<longrightarrow> untouched j (session_data w')) \<and>
         (\<forall>j. 1 \<le> j \<and> j \<le> k \<longrightarrow> answered j (session_data w')) \<and>
         map_of (session_data w') ''current_step'' = Some (PInt (int k + 1)) \<and>
         snapshot w' = (case werr of None \<Rightarrow> Some (session_data w') | Some e \<Rightarrow> file) \<and>
         run_steps 8 1 (take k steps) (start ins file werr sw sp) = (Some (Declined k), w')"
  using assms
proof (cases rule: main_cases)
  case (loop_exit oc)
  then have loop: "run_steps 8 1 steps (start ins file werr sw sp) = (Some (Declined k), w')"
    by simp
  from main_loop_post [OF loop]
  have env: "write_error w' = werr" and k: "1 \<le> k" "k \<le> 7"
    and head: "progress (Suc k) k (Suc k) (session_data w')" and sv: "saved w' file"
    by (simp_all add: at_head_def)
  from run_steps_used [OF loop, of k] have used:
    "run_steps 8 1 (take k steps) (start ins file werr sw sp) = (Some (Declined k), w')"
    by simp
  have "untouched j (session_data w')" if "k < j \<and> j \<le> 8" for j
    using progressD(2) [OF head, of j] that by simp
  moreover have "answered j (session_data w')" if "1 \<le> j \<and> j \<le> k" for j
    using progressD(1) [OF head, of j] that k by simp
  moreover have "map_of (session_data w') ''current_step'' = Some (PInt (int k + 1))"
    using progressD(3) [OF head, of 1] by simp
  ultimately show ?thesis
    using k used sv saved_iff [OF env, of "file"] by simp
qed simp_all

lemma run_declined_after_1:
  "fst (main [Line ''1'', Line ''2''] None None False False) = Inr (Declined 1)"
  by code_simp

theorem declined_stops_the_sequence_witness:
  "untouched 2 (session_data (snd (main [Line ''1'', Line ''2''] None None False False))) \<and>
   answered 1 (session_data (snd (main [Line ''1'', Line ''2''] None None False False))) \<and>
   snapshot (snd (main [Line ''1'', Line ''2''] None None False False)) =
     Some (session_data (snd (main [Line ''1'', Line ''2''] None None False False)))"
proof -
  have "main [Line ''1'', Line ''2''] None None False False =
      (Inr (Declined 1), snd (main [Line ''1'', Line ''2''] None None False False))"
    using run_declined_after_1 by (simp add: prod_eq_iff)
  from declined_stops_the_sequence [OF this] show ?thesis by simp
qed






lemma answered_2_iff_keys:
  assumes "progress c a u sd"
  shows "2 \<le> a \<Longrightarrow> answered 2 sd"
    and "a < 2 \<Longrightarrow> \<not> answered 2 sd"
proof -
  show "2 \<le> a \<Longrightarrow> answered 2 sd"
    using assms by (simp add: progress_iff)
  show "\<not> answered 2 sd" if "a < 2"
  proof -
    from assms that have "keys sd = keys init" by (simp add: progress_iff)
    then have "experience_key \<notin> fst ` set sd"
      by (simp add: keys_def keys_init [unfolded keys_def] experience_key_def
          flip: set_map)
    then have "map_of sd experience_key = None" by (simp add: map_of_eq_None_iff)
    then show ?thesis by (simp add: answered_def split: option.splits)
  qed
qed

lemma progress_keys:
  assumes "progress c a u sd"
  shows "keys sd = (if answered 2 sd then keys init @ [experience_key] else keys init)"
proof (cases "2 \<le> a")
  case True
  with answered_2_iff_keys(1) [OF assms] assms show ?thesis by (simp add: progress_iff)
next
  case False
  with answered_2_iff_keys(2) [OF assms] assms show ?thesis by (simp add: progress_iff)
qed

text \<open>What every run leaves in the file, when the file was absent before: nothing, or a
  record that is \<open>in_step c\<close> for a \<open>c\<close> from 1 to 9.\<close>

lemma written_snapshot:
  assumes "main ins None werr sw sp = (r, w')" and "snapshot w' = Some sd"
  shows "sd = session_data w' \<and> (\<exists>c. 1 \<le> c \<and> c \<le> 9 \<and> in_step c sd)"
  using assms(1)
proof (cases rule: main_cases)
  case (at_welcome w0)
  with assms(2) show ?thesis by (simp add: prints_effect start_effect)
next
  case (loop_exit oc)
  note post = main_loop_post [OF loop_exit(3)]
  show ?thesis
  proof (cases oc)
    case (Declined k)
    with post assms(2) have "sd = session_data w'" "1 \<le> Suc k" "Suc k \<le> 9"
      "in_step (Suc k) sd"
      by (auto simp: saved_def at_head_in_step split: option.splits)
    then show ?thesis by blast
  next
    case (Paused k)
    with post assms(2) have sd: "sd = session_data w'"
      and "in_step k sd \<or> in_step (Suc k) sd" and k: "1 \<le> k" "k \<le> 8"
      by (auto simp: saved_def at_head_in_step split: option.splits)
    then consider "in_step k sd" | "in_step (Suc k) sd" by blast
    then have "\<exists>c. 1 \<le> c \<and> c \<le> 9 \<and> in_step c sd"
    proof cases
      case 1
      with k have "1 \<le> k \<and> k \<le> 9 \<and> in_step k sd" by simp
      then show ?thesis by blast
    next
      case 2
      with k have "1 \<le> Suc k \<and> Suc k \<le> 9 \<and> in_step (Suc k) sd" by simp
      then show ?thesis by blast
    qed
    with sd show ?thesis by simp
  next
    case (Failed k e)
    with post assms(2) show ?thesis by simp
  qed (use post in simp_all)
next
  case (plan_interrupted w1)
  from main_loop_post [OF plan_interrupted(4)] plan_interrupted(5) assms(2)
  show ?thesis by (simp add: prints_effect)
next
  case (completed w1)
  from main_loop_post [OF completed(4)] completed(5) assms(2)
  have "sd = session_data w'" "at_head 9 sd"
    by (auto simp: prints_effect saved_def save_session_def print_def split: option.splits)
  then have "sd = session_data w'" "1 \<le> (9::nat) \<and> (9::nat) \<le> 9 \<and> in_step 9 sd"
    by (simp_all add: at_head_in_step)
  then show ?thesis by blast
qed

text \<open>
  Claim C7, as amended. A snapshot file written by a run holds exactly the record of that
  moment. Its top-level keys are the nine keys of the constructor, in their order, and
  once step 2 has stored its two answers also a tenth key, \<open>backend_framework_experience\<close>,
  which the constructor does not initialise and which holds the experience as a string
  beside \<open>backend_framework\<close> instead of nested under it.
\<close>

theorem snapshot_keys:
  assumes "main ins None werr sw sp = (r, w')" and "snapshot w' = Some sd"
  shows "sd = session_data w' \<and>
         keys sd =
           (if answered 2 sd then keys init @ [''backend_framework_experience'']
            else keys init)"
proof -
  from written_snapshot [OF assms] obtain c where "sd = session_data w'" "in_step c sd"
    by blast
  with progress_keys [of c "c - 1" "c + 1" sd] show ?thesis
    by (simp add: in_step_def experience_key_def)
qed

lemma run_declined_after_2:
  "fst (main [Line ''1'', Line ''1'', Line ''1'', Line ''1'', Line ''2''] None None False False) =
     Inr (Declined 2)"
  "snapshot (snd (main [Line ''1'', Line ''1'', Line ''1'', Line ''1'', Line ''2'']
     None None False False)) =
     Some (session_data (snd (main [Line ''1'', Line ''1'', Line ''1'', Line ''1'', Line ''2'']
       None None False False)))"
  "keys (session_data (snd (main [Line ''1'', Line ''1'', Line ''1'', Line ''1'', Line ''2'']
       None None False False))) = keys init @ [''backend_framework_experience'']"
  by code_simp+

theorem snapshot_keys_witness:
  "keys (session_data (snd (main [Line ''1'', Line ''1'', Line ''1'', Line ''1'', Line ''2'']
       None None False False))) =
     (if answered 2 (session_data (snd (main [Line ''1'', Line ''1'', Line ''1'', Line ''1'',
          Line ''2''] None None False False)))
      then keys init @ [''backend_framework_experience''] else keys init)"
  using snapshot_keys [OF prod.collapse [symmetric] run_declined_after_2(2)] by simp

text \<open>Step 1 and step 2 answered, then the continuation declined: the keys of the record
  in the file are the nine keys of the constructor and a tenth, so they are not exactly
  the keys of the constructor.\<close>

theorem snapshot_keys_counterexample:
  "map_option keys (snapshot (snd (main [Line ''1'', Line ''1'', Line ''1'', Line ''1'', Line ''2'']
     None None False False))) = Some (keys init @ [''backend_framework_experience'']) \<and>
   keys init @ [''backend_framework_experience''] \<noteq> keys init"
  using run_declined_after_2 by simp

text \<open>
  Claim C9. \<open>current_step\<close> is the index of the next step to run: the constructor's record
  has \<open>current_step = 1\<close> with no step started; when the body of the loop for step
  \<open>m + 1\<close> passes the step and goes on, the record has \<open>current_step = m + 2\<close>, the steps
  up to \<open>m + 1\<close> answered and the later ones not started; and every record that a run
  writes to the file has a \<open>current_step\<close> \<open>c\<close> from 1 to 9 such that all steps before
  \<open>c\<close> have stored their answers and no step after \<open>c\<close> has stored anything.
\<close>

theorem current_step_is_next_step:
  "at_head 1 init \<and>
   (m < 8 \<and> at_head (Suc m) (session_data w) \<and>
    try_step 8 (Suc m) (steps ! m) w = (Inr returned, w1) \<longrightarrow>
      at_head (Suc (Suc m)) (session_data w1)) \<and>
   (main ins None werr sw sp = (r, w') \<and> snapshot w' = Some sd \<longrightarrow>
      (\<exists>c. 1 \<le> c \<and> c \<le> 9 \<and> map_of sd ''current_step'' = Some (PInt (int c)) \<and>
           in_step c sd))"
proof (intro conjI impI)
  show "at_head 1 init" by (rule at_head_init)
next
  assume h: "m < 8 \<and> at_head (Suc m) (session_data w) \<and>
    try_step 8 (Suc m) (steps ! m) w = (Inr returned, w1)"
  then have "step_ok (Suc m) (steps ! m)" using steps_ok [of m] by (simp add: length_steps)
  from try_step_ok [OF this _ conjunct2 [OF conjunct2 [OF h]]] h
  show "at_head (Suc (Suc m)) (session_data w1)" by simp
next
  assume "main ins None werr sw sp = (r, w') \<and> snapshot w' = Some sd"
  then have "main ins None werr sw sp = (r, w')" "snapshot w' = Some sd" by simp_all
  from written_snapshot [OF this] obtain c where c: "1 \<le> c" "c \<le> 9" "in_step c sd" by blast
  then have "map_of sd ''current_step'' = Some (PInt (int c))"
    by (simp add: in_step_def progress_def)
  with c show "\<exists>c. 1 \<le> c \<and> c \<le> 9 \<and> map_of sd ''current_step'' = Some (PInt (int c)) \<and>
      in_step c sd" by blast
qed

lemma first_step_passed:
  "fst (try_step 8 (Suc 0) (steps ! 0) (start [Line ''1'', Line ''1''] None None False False)) =
     Inr False"
  by code_simp

theorem current_step_is_next_step_witness:
  "at_head 2 (session_data (snd (try_step 8 (Suc 0) (steps ! 0)
      (start [Line ''1'', Line ''1''] None None False False)))) \<and>
   (\<exists>c. 1 \<le> c \<and> c \<le> 9 \<and>
      map_of (session_data (snd (main [Line ''1'', Line ''1'', Line ''1'', Line ''1'', Line ''2'']
        None None False False))) ''current_step'' = Some (PInt (int c)) \<and>
      in_step c (session_data (snd (main [Line ''1'', Line ''1'', Line ''1'', Line ''1'',
        Line ''2''] None None False False))))"
proof -
  have a: "try_step 8 (Suc 0) (steps ! 0) (start [Line ''1'', Line ''1''] None None False False) =
      (Inr False, snd (try_step 8 (Suc 0) (steps ! 0)
        (start [Line ''1'', Line ''1''] None None False False)))"
    using first_step_passed by (simp add: prod_eq_iff)
  have b: "at_head (Suc 0) (session_data (start [Line ''1'', Line ''1''] None None False False))"
    using at_head_init by (simp add: start_effect)
  show ?thesis
    using current_step_is_next_step [where m = 0
        and w = "start [Line ''1'', Line ''1''] None None False False"
        and returned = False
        and ?w1.0 = "snd (try_step 8 (Suc 0) (steps ! 0)
          (start [Line ''1'', Line ''1''] None None False False))"
        and ins = "[Line ''1'', Line ''1'', Line ''1'', Line ''1'', Line ''2'']"
        and werr = None and sw = False and sp = False
        and r = "fst (main [Line ''1'', Line ''1'', Line ''1'', Line ''1'', Line ''2'']
          None None False False)"
        and w' = "snd (main [Line ''1'', Line ''1'', Line ''1'', Line ''1'', Line ''2'']
          None None False False)"
        and sd = "session_data (snd (main [Line ''1'', Line ''1'', Line ''1'', Line ''1'',
          Line ''2''] None None False False))"]
      a b run_declined_after_2(2)
    by (simp add: numeral_2_eq_2)
qed

text \<open>
  Claim C10. After a step at an index below the number of steps has returned and the
  continue question has been answered, the loop stops and saves exactly when \<open>No\<close> occurs
  in the answer; otherwise it goes on with the next step. When the operator chooses entry
  3 of the continue question and types a text, that text (stripped) is the answer, so a
  typed \<open>Nope\<close> or \<open>Not yet\<close> stops the run like the listed No does, and a typed text
  without \<open>No\<close> continues it.
\<close>

theorem continue_stops_exactly_on_No:
  assumes "step w = (Inr b, w1)" and "i < n"
    and "ask_question ''Ready to continue to the next step?'' continue_options True
           (set_item ''current_step'' (PInt (int i + 1)) w1) = (Inr answer, w2)"
  shows "run_steps n i (step # rest) w =
           (if contains ''No'' answer
            then (Some (Declined i),
                  save_session
                    (prints [newline @ pause_sign @
                               '' Feel free to review the information above.'',
                             ''Run the assistant again when you're ready to continue!''] w2))
            else run_steps n (Suc i) rest w2) \<and>
         (stdin w1 = Line l # Line c # ins \<and> py_int (strip l) = Some 3 \<and> strip c \<noteq> [] \<longrightarrow>
            answer = strip c)"
proof
  from assms have "try_step n i step w =
      (if contains ''No'' answer
       then (Inr True,
             save_session
               (prints [newline @ pause_sign @ '' Feel free to review the information above.'',
                        ''Run the assistant again when you're ready to continue!''] w2))
       else (Inr False, w2))"
    by (simp add: try_step_def bind_def assign_def return_def)
  then show "run_steps n i (step # rest) w =
           (if contains ''No'' answer
            then (Some (Declined i),
                  save_session
                    (prints [newline @ pause_sign @
                               '' Feel free to review the information above.'',
                             ''Run the assistant again when you're ready to continue!''] w2))
            else run_steps n (Suc i) rest w2)"
    by (simp add: run_steps_Cons del: run_steps.simps)
next
  show "stdin w1 = Line l # Line c # ins \<and> py_int (strip l) = Some 3 \<and> strip c \<noteq> [] \<longrightarrow>
      answer = strip c"
  proof
    assume h: "stdin w1 = Line l # Line c # ins \<and> py_int (strip l) = Some 3 \<and> strip c \<noteq> []"
    then have "ask_loop continue_options True (Line l # Line c # ins) =
        ([Prompt choice_prompt, Prompt specify_prompt,
          Print (check_mark @ '' Custom choice: '' @ strip c)], Inr (strip c), ins)"
      by (intro ask_loop_custom) (simp_all add: continue_options_def)
    with h have "fst (ask_question ''Ready to continue to the next step?'' continue_options True
        (set_item ''current_step'' (PInt (int i + 1)) w1)) = Inr (strip c)"
      by (simp add: ask_question_result set_item_effect del: ask_loop.simps)
    with assms(3) show "answer = strip c" by simp
  qed
qed

lemma nope_run:
  "fst (step_1_frontend_analysis
     (start [Line ''1'', Line ''3'', Line ''Nope''] None None False False)) = Inr True"
  "stdin (snd (step_1_frontend_analysis
     (start [Line ''1'', Line ''3'', Line ''Nope''] None None False False))) =
     [Line ''3'', Line ''Nope'']"
  "fst (ask_question ''Ready to continue to the next step?'' continue_options True
     (set_item ''current_step'' (PInt (int 1 + 1))
        (snd (step_1_frontend_analysis
           (start [Line ''1'', Line ''3'', Line ''Nope''] None None False False))))) =
     Inr ''Nope''"
  "contains ''No'' ''Nope''" "strip ''Nope'' = ''Nope''"
  by code_simp+

theorem continue_stops_exactly_on_No_witness:
  "fst (run_steps 8 1 [step_1_frontend_analysis, step_2_backend_framework]
     (start [Line ''1'', Line ''3'', Line ''Nope''] None None False False)) = Some (Declined 1)"
proof -
  let ?w = "start [Line ''1'', Line ''3'', Line ''Nope''] None None False False"
  let ?w1 = "snd (step_1_frontend_analysis ?w)"
  let ?ask = "ask_question ''Ready to continue to the next step?'' continue_options True
     (set_item ''current_step'' (PInt (int 1 + 1)) ?w1)"
  have a: "step_1_frontend_analysis ?w = (Inr True, ?w1)"
    using nope_run(1) by (simp add: prod_eq_iff)
  have b: "?ask = (Inr ''Nope'', snd ?ask)"
    using nope_run(3) by (simp add: prod_eq_iff)
  have c: "(1::nat) < 8" by simp
  from continue_stops_exactly_on_No [where step = step_1_frontend_analysis and w = "?w"
      and rest = "[step_2_backend_framework]" and l = "''3''" and c = "''Nope''" and ins = "[]",
      OF a c b]
    nope_run(2,4,5) py_int_examples
  show ?thesis by simp
qed

lemma save_session_stdout:
  "stdout (save_session w) =
     stdout w @
     [Print (case write_error w of
               None \<Rightarrow> newline @ floppy_disk @
                 '' Session saved to backend_assistant_session.json''
             | Some e \<Rightarrow> warning_sign @ '' Could not save session: '' @ e)]"
  by (simp add: save_session_def print_def split: option.split)

lemma complete_record_listed:
  assumes "at_head 9 sd"
  shows "listed_fields_recorded sd"
  using plan_of_complete_record [of "(start [] None None False False)\<lparr>session_data := sd\<rparr>"]
    assms
  by (simp add: start_def)

text \<open>
  Claim C5, as amended. When all eight steps have run and the plan has been printed, every
  step has stored its answers, so no field of the record is \<open>None\<close>, and \<open>current_step\<close>
  is 9. The last things written are the plan, the message of \<open>save_session\<close> and the
  congratulation. The plan lists eleven recorded values, each as it was recorded and none
  through the placeholder \<open>Not specified\<close>: the backend framework, the LLM and the vector
  database, the data source and its complexity, the API style and the real-time choice,
  the authentication and the privacy level, the deployment platform and the scale. It has
  no line for the frontend stack, for the experience with the framework or for the
  communication and error-handling answers, which are recorded all the same.
\<close>

theorem completed_run_plan:
  assumes "main ins file werr sw sp = (Inr Completed, w')"
  shows "(\<forall>j. 1 \<le> j \<and> j \<le> 8 \<longrightarrow> answered j (session_data w')) \<and>
         map_of (session_data w') ''current_step'' = Some (PInt 9) \<and>
         listed_fields_recorded (session_data w') \<and>
         ends_with (stdout w')
           (map Print (plan_report (session_data w')) @
            [Print (case werr of
                      None \<Rightarrow> newline @ floppy_disk @
                        '' Session saved to backend_assistant_session.json''
                    | Some e \<Rightarrow> warning_sign @ '' Could not save session: '' @ e),
             Print (newline @ party_popper @
                    '' Congratulations! You have a complete backend development plan.''),
             Print (''Check the framework-specific guides in backend-guide/frameworks/ '' @
                    ''to start coding!'')])"
  using assms
proof (cases rule: main_cases)
  case (loop_exit oc)
  from main_loop_post [OF loop_exit(3)] loop_exit(2) show ?thesis by simp
next
  case (completed w1)
  from main_loop_post [OF completed(4)]
  have env: "write_error w1 = werr" and head: "at_head 9 (session_data w1)" by simp_all
  from completed(5) have sd: "session_data w' = session_data w1"
    by (simp add: prints_effect save_session_effect)
  from head have prog: "progress 9 8 9 (session_data w')" by (simp add: at_head_def sd)
  have "answered j (session_data w')" if "1 \<le> j \<and> j \<le> 8" for j
    using progressD(1) [OF prog, of j] that by simp
  moreover have "map_of (session_data w') ''current_step'' = Some (PInt 9)"
    using progressD(3) [OF prog, of 1] by simp
  moreover have "listed_fields_recorded (session_data w')"
    using complete_record_listed [OF head] by (simp add: sd)
  moreover from completed(5) env have "stdout w' =
      stdout w1 @
      (map Print (plan_report (session_data w')) @
       [Print (case werr of
                 None \<Rightarrow> newline @ floppy_disk @
                   '' Session saved to backend_assistant_session.json''
               | Some e \<Rightarrow> warning_sign @ '' Could not save session: '' @ e),
        Print (newline @ party_popper @
               '' Congratulations! You have a complete backend development plan.''),
        Print (''Check the framework-specific guides in backend-guide/frameworks/ '' @
               ''to start coding!'')])"
    by (simp add: prints_effect save_session_stdout save_session_effect)
  then have "ends_with (stdout w')
      (map Print (plan_report (session_data w')) @
       [Print (case werr of
                 None \<Rightarrow> newline @ floppy_disk @
                   '' Session saved to backend_assistant_session.json''
               | Some e \<Rightarrow> warning_sign @ '' Could not save session: '' @ e),
        Print (newline @ party_popper @
               '' Congratulations! You have a complete backend development plan.''),
        Print (''Check the framework-specific guides in backend-guide/frameworks/ '' @
               ''to start coding!'')])"
    by (simp only: ends_with_append)
  ultimately show ?thesis by blast
qed simp_all

text \<open>The run in which every question is answered with its first option.\<close>

lemma run_of_first_options:
  "apsnd session_data (main (replicate 22 (Line ''1'')) None None False False) =
     (Inr Completed,
      [(''frontend_tech_stack'',
        PDict [(''framework'', ''React + Vite''), (''styling'', ''Tailwind CSS''),
               (''familiarity'', ''Very familiar - I built it'')]),
       (''backend_framework'',
        PStr ''FastAPI (Python) - High performance, automatic API docs''),
       (''llm_requirements'',
        PDict [(''llm_choice'', ''Mistral 7B (Local) - Privacy-focused, no API costs''),
               (''vector_db'', ''Faiss (Facebook) - Fast, local, good for prototypes'')]),
       (''data_format'',
        PDict [(''source'', ''Insurance company APIs - Real-time policy data''),
               (''complexity'', ''Simple - Basic plans with premium ranges'')]),
       (''api_design'',
        PDict [(''style'', ''REST - Simple, widely supported''),
               (''realtime'', ''Yes - WebSocket for live chat'')]),
       (''auth_requirements'',
        PDict [(''auth_type'', ''None - Anonymous quotes (simplest start)''),
               (''privacy_level'', ''Low - General health questions only'')]),
       (''deployment_target'',
        PDict [(''platform'', ''Local development - Docker Compose''),
               (''scale'', ''Small - <100 users/day'')]),
       (''communication_method'',
        PDict [(''client'', ''Axios (already used) - HTTP client library''),
               (''error_handling'', ''Basic - Simple try/catch blocks'')]),
       (''current_step'', PInt 9),
       (''backend_framework_experience'', PStr ''Expert - I've built production applications'')])"
  by code_simp

theorem completed_run_plan_witness:
  "map_of (session_data (snd (main (replicate 22 (Line ''1'')) None None False False)))
     ''current_step'' = Some (PInt 9) \<and>
   listed_fields_recorded
     (session_data (snd (main (replicate 22 (Line ''1'')) None None False False)))"
proof -
  have "fst (main (replicate 22 (Line ''1'')) None None False False) = Inr Completed"
    using run_of_first_options by (simp add: apsnd_def map_prod_def split: prod.splits)
  then have "main (replicate 22 (Line ''1'')) None None False False =
      (Inr Completed, snd (main (replicate 22 (Line ''1'')) None None False False))"
    by (simp add: prod_eq_iff)
  from completed_run_plan [OF this] show ?thesis by simp
qed

text \<open>In that run the record holds the answer about the HTTP client, and no line of the
  plan rendered from that record shows it.\<close>

theorem plan_omits_recorded_answer_counterexample:
  "fst (apsnd session_data (main (replicate 22 (Line ''1'')) None None False False)) =
     Inr Completed \<and>
   recorded (snd (apsnd session_data (main (replicate 22 (Line ''1'')) None None False False)))
     ''communication_method'' ''client'' = Some ''Axios (already used) - HTTP client library'' \<and>
   \<not> mentions
       (stdout (snd (generate_implementation_plan
          ((start [] None None False False)
             \<lparr>session_data :=
                snd (apsnd session_data
                  (main (replicate 22 (Line ''1'')) None None False False))\<rparr>))))
       ''Axios (already used) - HTTP client library''"
  unfolding run_of_first_options by code_simp

lemma caught_by_except_Exception: "is_Exception e \<longleftrightarrow> e \<noteq> KeyboardInterrupt"
  by (cases e) simp_all

text \<open>
  Claim C6. When the body of the inner \<open>try\<close> for the step at index \<open>i\<close> raises an exception
  other than the interrupt, the loop returns at once, whatever steps remain: the message
  naming step \<open>i\<close> and the hint to restart are printed and the handler leaves the file
  alone. For the whole run that ends in this handler: the two lines are the last things
  written, so no plan follows; the file is as it was before the run, so the record has
  not been saved; and the sequencer given only the first \<open>k\<close> steps ends in the same way
  in the same state, so no remaining step was invoked.
\<close>

theorem fault_ends_run_unsaved:
  "(try_step n i step w = (Inl e, w1) \<and> is_Exception e \<longrightarrow>
      run_steps n i (step # rest) w =
        (Some (Failed i e),
         prints [newline @ cross_mark @ '' Error in step '' @ str_nat i @ '': '' @ exn_str e,
                 ''Don't worry, you can restart the assistant anytime!''] w1) \<and>
      snapshot
        (prints [newline @ cross_mark @ '' Error in step '' @ str_nat i @ '': '' @ exn_str e,
                 ''Don't worry, you can restart the assistant anytime!''] w1) = snapshot w1) \<and>
   (main ins file werr sw sp = (Inr (Failed k x), w') \<longrightarrow>
      1 \<le> k \<and> k \<le> 8 \<and> is_Exception x \<and>
      ends_with (stdout w')
        [Print (newline @ cross_mark @ '' Error in step '' @ str_nat k @ '': '' @ exn_str x),
         Print ''Don't worry, you can restart the assistant anytime!''] \<and>
      snapshot w' = file \<and>
      run_steps 8 1 (take k steps) (start ins file werr sw sp) = (Some (Failed k x), w'))"
proof (intro conjI impI)
  assume h: "try_step n i step w = (Inl e, w1) \<and> is_Exception e"
  then show "run_steps n i (step # rest) w =
        (Some (Failed i e),
         prints [newline @ cross_mark @ '' Error in step '' @ str_nat i @ '': '' @ exn_str e,
                 ''Don't worry, you can restart the assistant anytime!''] w1)"
    by (simp add: run_steps_Cons caught_by_except_Exception del: run_steps.simps)
  show "snapshot
        (prints [newline @ cross_mark @ '' Error in step '' @ str_nat i @ '': '' @ exn_str e,
                 ''Don't worry, you can restart the assistant anytime!''] w1) = snapshot w1"
    by (simp add: prints_effect)
next
  assume run: "main ins file werr sw sp = (Inr (Failed k x), w')"
  then have "1 \<le> k \<and> k \<le> 8 \<and> x \<noteq> KeyboardInterrupt \<and>
      ends_with (stdout w')
        [Print (newline @ cross_mark @ '' Error in step '' @ str_nat k @ '': '' @ exn_str x),
         Print ''Don't worry, you can restart the assistant anytime!''] \<and>
      snapshot w' = file \<and>
      run_steps 8 1 (take k steps) (start ins file werr sw sp) = (Some (Failed k x), w')"
  proof (cases rule: main_cases)
    case (loop_exit oc)
    then have loop: "run_steps 8 1 steps (start ins file werr sw sp) = (Some (Failed k x), w')"
      by simp
    from run_steps_used [OF loop, of k x] main_loop_post [OF loop] show ?thesis by simp
  qed simp_all
  then show "1 \<le> k" "k \<le> 8" "is_Exception x"
    "ends_with (stdout w')
        [Print (newline @ cross_mark @ '' Error in step '' @ str_nat k @ '': '' @ exn_str x),
         Print ''Don't worry, you can restart the assistant anytime!'']"
    "snapshot w' = file"
    "run_steps 8 1 (take k steps) (start ins file werr sw sp) = (Some (Failed k x), w')"
    by (simp_all add: caught_by_except_Exception)
qed

lemma run_failed_in_2:
  "fst (main [Line ''1'', Line ''1'', Line ''1''] None None False False) = Inr (Failed 2 EOFError)"
  "fst (try_step 8 2 step_2_backend_framework (start [Line ''1''] None None False False)) =
     Inl EOFError"
  by code_simp+

theorem fault_ends_run_unsaved_witness:
  "fst (run_steps 8 2 [step_2_backend_framework, step_3_llm_integration]
     (start [Line ''1''] None None False False)) = Some (Failed 2 EOFError) \<and>
   snapshot (snd (main [Line ''1'', Line ''1'', Line ''1''] None None False False)) = None \<and>
   ends_with (stdout (snd (main [Line ''1'', Line ''1'', Line ''1''] None None False False)))
     [Print (newline @ cross_mark @ '' Error in step '' @ str_nat 2 @ '': '' @
             ''EOF when reading a line''),
      Print ''Don't worry, you can restart the assistant anytime!'']"
proof -
  have a: "main [Line ''1'', Line ''1'', Line ''1''] None None False False =
      (Inr (Failed 2 EOFError),
       snd (main [Line ''1'', Line ''1'', Line ''1''] None None False False))"
    using run_failed_in_2(1) by (simp add: prod_eq_iff)
  have b: "try_step 8 2 step_2_backend_framework (start [Line ''1''] None None False False) =
      (Inl EOFError,
       snd (try_step 8 2 step_2_backend_framework (start [Line ''1''] None None False False)))"
    using run_failed_in_2(2) by (simp add: prod_eq_iff)
  from fault_ends_run_unsaved [where n = 8 and i = 2 and step = step_2_backend_framework
      and w = "start [Line ''1''] None None False False" and e = EOFError
      and ?w1.0 = "snd (try_step 8 2 step_2_backend_framework
        (start [Line ''1''] None None False False))"
      and rest = "[step_3_llm_integration]"
      and ins = "[Line ''1'', Line ''1'', Line ''1'']" and ?file = None and werr = None
      and sw = False and sp = False and k = 2 and x = EOFError
      and w' = "snd (main [Line ''1'', Line ''1'', Line ''1''] None None False False)"]
    a b
  show ?thesis by (simp del: run_steps.simps)
qed

end
